theory Spec2Isabelle
  imports Complex_Main "HOL-Library.Multiset"
begin

section \<open>Data model\<close>

text \<open>
  The interfaces of the client (\<^verbatim>\<open>types.ts\<close>) as records. A field keeps its name
  from the source, with the initials of its interface in front where two interfaces share
  a name or the name is taken in HOL (\<open>id\<close>, \<open>title\<close>, \<open>total\<close>, \<open>analysis\<close>).
  Numbers that count or identify (question ids, option indices, seconds, scores) are
  integers, of any size. A JavaScript object used as a dictionary is a list of key-value
  pairs with unique keys, in the order in which the engine lists its keys.
\<close>

datatype Screen = Selection | Test | Loading | Results

record Analysis =
  a_title :: string
  overall_summary :: string
  strengths_analysis :: string
  growth_analysis :: string
  action_item :: string

record Category =
  c_id :: string
  c_title :: string
  description :: string
  icon :: string

record Question =
  q_id :: int
  category :: string
  questionText :: string
  options :: "string list"

type_synonym UserAnswer = "(string \<times> int) list"

record CategoryResult =
  correct :: int
  cr_total :: int

record TestResults =
  totalCorrect :: int
  totalQuestions :: int
  categoryResults :: "(string \<times> CategoryResult) list"

record SubmitResponse =
  results :: TestResults
  sr_analysis :: Analysis

section \<open>JavaScript helpers the client relies on\<close>

subsection \<open>\<^verbatim>\<open>Number.prototype.toString\<close> and \<^verbatim>\<open>parseInt\<close> on integers\<close>

definition digit :: "int \<Rightarrow> char" where
  "digit n = ''0123456789'' ! nat (n mod 10)"

text \<open>The decimal digits of a number that is not negative.\<close>

function digits :: "int \<Rightarrow> string" where
  "digits n = (if n < 10 then [digit n] else digits (n div 10) @ [digit n])"
  by pat_completeness auto
termination
  by (relation "measure nat") auto

definition toString :: "int \<Rightarrow> string" where
  "toString i = (if i < 0 then CHR ''-'' # digits (- i) else digits i)"

definition is_digit :: "char \<Rightarrow> bool" where
  "is_digit c = (c \<in> set ''0123456789'')"

definition digit_val :: "char \<Rightarrow> int" where
  "digit_val c = int (length (takeWhile (\<lambda>d. d \<noteq> c) ''0123456789''))"

definition digits_val :: "string \<Rightarrow> int" where
  "digits_val ds = foldl (\<lambda>acc c. 10 * acc + digit_val c) 0 ds"

text \<open>
  \<^verbatim>\<open>parseInt(s)\<close> with the default radix, on the strings the client passes to it (keys
  written by \<open>toString\<close>): an optional sign, then the longest run of decimal digits;
  \<open>None\<close> is \<^verbatim>\<open>NaN\<close>, the result when no digit follows.
\<close>

definition parseInt :: "string \<Rightarrow> int option" where
  "parseInt s =
     (let (neg, rest) =
            (case s of
               c # r \<Rightarrow> if c = CHR ''-'' then (True, r) else if c = CHR ''+'' then (False, r) else (False, s)
             | [] \<Rightarrow> (False, s));
          ds = takeWhile is_digit rest
      in if ds = [] then None
         else Some (if neg then - digits_val ds else digits_val ds))"

subsection \<open>Objects as dictionaries\<close>

text \<open>
  The own keys of an object are listed with the array indices first, in ascending order,
  then the other string keys in the order they were added. An array index is the
  canonical decimal string of a number below \<open>2\<^sup>3\<^sup>2 - 1\<close>.
\<close>

definition array_index :: "string \<Rightarrow> int option" where
  "array_index k =
     (if k \<noteq> [] \<and> list_all is_digit k \<and> digits (digits_val k) = k \<and> digits_val k < 4294967295
      then Some (digits_val k) else None)"

fun obj_insert_index :: "int \<Rightarrow> string \<Rightarrow> 'v \<Rightarrow> (string \<times> 'v) list \<Rightarrow> (string \<times> 'v) list" where
  "obj_insert_index n k v [] = [(k, v)]"
| "obj_insert_index n k v ((k', v') # rest) =
     (case array_index k' of
        Some m \<Rightarrow> if m < n then (k', v') # obj_insert_index n k v rest else (k, v) # (k', v') # rest
      | None \<Rightarrow> (k, v) # (k', v') # rest)"

text \<open>\<^verbatim>\<open>{ ...prev, [k]: v }\<close>: a fresh object with the entries of \<open>prev\<close> and \<open>k\<close> set to \<open>v\<close>.\<close>

definition obj_set :: "(string \<times> 'v) list \<Rightarrow> string \<Rightarrow> 'v \<Rightarrow> (string \<times> 'v) list" where
  "obj_set prev k v =
     (if k \<in> fst ` set prev then map (\<lambda>(k', v'). if k' = k then (k', v) else (k', v')) prev
      else case array_index k of
             Some n \<Rightarrow> obj_insert_index n k v prev
           | None \<Rightarrow> prev @ [(k, v)])"

definition obj_get :: "(string \<times> 'v) list \<Rightarrow> string \<Rightarrow> 'v option" where
  "obj_get obj k = map_of obj k"

subsection \<open>Arrays in a store, \<^verbatim>\<open>Math.random\<close> and \<^verbatim>\<open>Array.prototype.sort\<close>\<close>

text \<open>
  Arrays are mutable and passed by reference: a store maps a reference to the contents of
  the array it names, and \<open>fresh\<close> is the next reference to hand out.
  \<^verbatim>\<open>Math.random\<close> reads the next number of a sequence of draws.
\<close>

record 'a store =
  arrays :: "nat \<Rightarrow> 'a list option"
  fresh :: nat

record rng =
  draws :: "nat \<Rightarrow> real"
  drawn :: nat

definition Math_random :: "rng \<Rightarrow> real \<times> rng" where
  "Math_random g = (draws g (drawn g), g\<lparr>drawn := Suc (drawn g)\<rparr>)"

text \<open>\<^verbatim>\<open>[...array]\<close>: a new array with the elements of \<open>array\<close>.\<close>

definition spread :: "'a store \<Rightarrow> nat \<Rightarrow> (nat \<times> 'a store) option" where
  "spread st array =
     (case arrays st array of
        None \<Rightarrow> None
      | Some xs \<Rightarrow> Some (fresh st, st\<lparr>arrays := (arrays st)(fresh st \<mapsto> xs), fresh := Suc (fresh st)\<rparr>))"

text \<open>
  \<^verbatim>\<open>sort(comparefn)\<close> sorts the array in place and returns the same reference. The
  engine's algorithm is an insertion sort here: each element is moved left past the
  elements the comparator puts after it. The comparator is called with the generator, since
  it may draw from it.
\<close>

fun sort_insert :: "('a \<Rightarrow> 'a \<Rightarrow> rng \<Rightarrow> real \<times> rng) \<Rightarrow> 'a \<Rightarrow> 'a list \<Rightarrow> rng \<Rightarrow> 'a list \<times> rng" where
  "sort_insert comparefn x [] g = ([x], g)"
| "sort_insert comparefn x (y # ys) g =
     (let (c, g') = comparefn x y g
      in if c \<le> 0 then (x # y # ys, g')
         else (let (zs, g'') = sort_insert comparefn x ys g' in (y # zs, g'')))"

fun sort_list :: "('a \<Rightarrow> 'a \<Rightarrow> rng \<Rightarrow> real \<times> rng) \<Rightarrow> 'a list \<Rightarrow> rng \<Rightarrow> 'a list \<times> rng" where
  "sort_list comparefn [] g = ([], g)"
| "sort_list comparefn (x # xs) g =
     (let (ys, g') = sort_list comparefn xs g in sort_insert comparefn x ys g')"

definition Array_sort ::
  "'a store \<Rightarrow> nat \<Rightarrow> ('a \<Rightarrow> 'a \<Rightarrow> rng \<Rightarrow> real \<times> rng) \<Rightarrow> rng \<Rightarrow> (nat \<times> 'a store \<times> rng) option" where
  "Array_sort st array comparefn g =
     (case arrays st array of
        None \<Rightarrow> None
      | Some xs \<Rightarrow>
          (let (ys, g') = sort_list comparefn xs g
           in Some (array, st\<lparr>arrays := (arrays st)(array \<mapsto> ys)\<rparr>, g')))"

section \<open>\<^verbatim>\<open>App.tsx\<close>\<close>

subsection \<open>\<^verbatim>\<open>shuffleArray\<close>\<close>

text \<open>The comparator \<^verbatim>\<open>() => Math.random() - 0.5\<close> ignores its arguments.\<close>

definition shuffle_compare :: "'a \<Rightarrow> 'a \<Rightarrow> rng \<Rightarrow> real \<times> rng" where
  "shuffle_compare a b g = (let (r, g') = Math_random g in (r - 0.5, g'))"

definition shuffleArray :: "'a store \<Rightarrow> rng \<Rightarrow> nat \<Rightarrow> (nat \<times> 'a store \<times> rng) option" where
  "shuffleArray st g array =
     (case spread st array of
        None \<Rightarrow> None
      | Some (copy, st') \<Rightarrow> Array_sort st' copy shuffle_compare g)"

subsection \<open>\<^verbatim>\<open>CategorySelectionScreen\<close>\<close>

text \<open>
  The local state is the \<^verbatim>\<open>Set\<close> of selected category ids; the component reads it with
  \<^verbatim>\<open>has\<close> and \<^verbatim>\<open>size\<close> only.
\<close>

definition handleSelect :: "string set \<Rightarrow> string \<Rightarrow> string set" where
  "handleSelect selected i = (if i \<in> selected then selected - {i} else insert i selected)"

text \<open>\<^verbatim>\<open>handleStart\<close>: the categories passed to \<^verbatim>\<open>onStartTest\<close>.\<close>

definition handleStart :: "Category list \<Rightarrow> string set \<Rightarrow> Category list" where
  "handleStart categories selected = filter (\<lambda>cat. c_id cat \<in> selected) categories"

subsection \<open>\<^verbatim>\<open>TestScreen\<close>\<close>

text \<open>
  The three state variables of the component, and \<open>timerActive\<close>: whether the interval of
  the countdown hook is set and not yet cleared.
\<close>

record TestScreen_state =
  currentQuestionIndex :: int
  userAnswers :: UserAnswer
  timeLeft :: int
  timerActive :: bool

text \<open>\<^verbatim>\<open>questions[i]\<close>: \<open>None\<close> is \<^verbatim>\<open>undefined\<close>.\<close>

definition question_at :: "Question list \<Rightarrow> int \<Rightarrow> Question option" where
  "question_at questions i =
     (if 0 \<le> i \<and> i < int (length questions) then Some (questions ! nat i) else None)"

text \<open>
  Mounting: the initial values of \<^verbatim>\<open>useState\<close>, then the countdown hook, which sets
  \<open>timeLeft\<close> to the limit and starts the interval unless the limit is 0 or less.
\<close>

definition countdown_hook :: "int \<Rightarrow> TestScreen_state \<Rightarrow> TestScreen_state" where
  "countdown_hook timeLimit ts = ts\<lparr>timeLeft := timeLimit, timerActive := \<not> timeLimit \<le> 0\<rparr>"

definition mount_TestScreen :: "int \<Rightarrow> TestScreen_state" where
  "mount_TestScreen timeLimit =
     countdown_hook timeLimit
       \<lparr>currentQuestionIndex = 0, userAnswers = [], timeLeft = timeLimit, timerActive = False\<rparr>"

text \<open>One firing of the interval: the functional update of \<open>timeLeft\<close>.\<close>

definition tick :: "TestScreen_state \<Rightarrow> TestScreen_state" where
  "tick ts =
     (if timerActive ts
      then (if timeLeft ts \<le> 1 then ts\<lparr>timeLeft := 0, timerActive := False\<rparr>
            else ts\<lparr>timeLeft := timeLeft ts - 1\<rparr>)
      else ts)"

text \<open>
  The timeout hook: the answers it passes to \<^verbatim>\<open>onSubmit\<close>, or \<open>None\<close> when it does not
  call it.
\<close>

definition timeout_hook :: "Question list \<Rightarrow> TestScreen_state \<Rightarrow> UserAnswer option" where
  "timeout_hook questions ts =
     (if timeLeft ts = 0 \<and> length questions > 0 then Some (userAnswers ts) else None)"

text \<open>
  \<^verbatim>\<open>handleAnswerSelect\<close>: \<open>None\<close> when \<^verbatim>\<open>questions[currentQuestionIndex]\<close> is
  undefined and reading its \<^verbatim>\<open>id\<close> throws.
\<close>

definition handleAnswerSelect :: "Question list \<Rightarrow> TestScreen_state \<Rightarrow> int \<Rightarrow> TestScreen_state option" where
  "handleAnswerSelect questions ts answerIndex =
     (case question_at questions (currentQuestionIndex ts) of
        None \<Rightarrow> None
      | Some q \<Rightarrow> Some (ts\<lparr>userAnswers := obj_set (userAnswers ts) (toString (q_id q)) answerIndex\<rparr>))"

definition handleNext :: "Question list \<Rightarrow> TestScreen_state \<Rightarrow> TestScreen_state" where
  "handleNext questions ts =
     (if currentQuestionIndex ts < int (length questions) - 1
      then ts\<lparr>currentQuestionIndex := currentQuestionIndex ts + 1\<rparr> else ts)"

definition handlePrev :: "TestScreen_state \<Rightarrow> TestScreen_state" where
  "handlePrev ts =
     (if currentQuestionIndex ts > 0
      then ts\<lparr>currentQuestionIndex := currentQuestionIndex ts - 1\<rparr> else ts)"

text \<open>
  What the component renders: the indices of the option buttons of the current question
  (\<open>None\<close> when there is no current question and rendering throws), and which of the
  buttons Next and Submit Answers stands in the footer.
\<close>

definition option_buttons :: "Question list \<Rightarrow> TestScreen_state \<Rightarrow> int list option" where
  "option_buttons questions ts =
     (case question_at questions (currentQuestionIndex ts) of
        None \<Rightarrow> None
      | Some q \<Rightarrow> Some (map int [0..<length (options q)]))"

definition shows_next :: "Question list \<Rightarrow> TestScreen_state \<Rightarrow> bool" where
  "shows_next questions ts = (currentQuestionIndex ts < int (length questions) - 1)"

definition prev_disabled :: "TestScreen_state \<Rightarrow> bool" where
  "prev_disabled ts = (currentQuestionIndex ts = 0)"

subsection \<open>\<^verbatim>\<open>ResultBar\<close>\<close>

text \<open>
  A JavaScript number is a finite number, or one of \<^verbatim>\<open>Infinity\<close>, \<^verbatim>\<open>-Infinity\<close> and
  \<^verbatim>\<open>NaN\<close>, which a division by zero gives.
\<close>

datatype js_number = Finite real | NonFinite

fun js_div :: "js_number \<Rightarrow> js_number \<Rightarrow> js_number" where
  "js_div (Finite a) (Finite b) = (if b = 0 then NonFinite else Finite (a / b))"
| "js_div _ _ = NonFinite"

fun js_times :: "js_number \<Rightarrow> js_number \<Rightarrow> js_number" where
  "js_times (Finite a) (Finite b) = Finite (a * b)"
| "js_times _ _ = NonFinite"

definition percentage :: "int \<Rightarrow> int \<Rightarrow> js_number" where
  "percentage correct_n total_n =
     (if total_n > 0
      then js_times (js_div (Finite (of_int correct_n)) (Finite (of_int total_n))) (Finite 100)
      else Finite 0)"

subsection \<open>\<^verbatim>\<open>App\<close>: state, requests and handlers\<close>

record App_state =
  screen :: Screen
  quizQuestions :: "Question list"
  testResults :: "TestResults option"
  analysis :: "Analysis option"
  error :: "string option"
  allCategories :: "Category list"
  timeLimit :: int

definition initial_App :: App_state where
  "initial_App =
     \<lparr>screen = Selection, quizQuestions = [], testResults = None, analysis = None,
      error = None, allCategories = [], timeLimit = 0\<rparr>"

text \<open>
  A call of \<^verbatim>\<open>fetch\<close> as the handlers see it: the request, and later one of four
  outcomes. \<open>Fetched d\<close>: the response is ok and its JSON is \<open>d\<close>. \<open>NotOk detail\<close>: the
  response is not ok, and its JSON has this \<^verbatim>\<open>detail\<close> (\<open>None\<close> when there is none).
  \<open>ThrewError m\<close>: \<^verbatim>\<open>fetch\<close> or \<^verbatim>\<open>json()\<close> threw an \<^verbatim>\<open>Error\<close> with message
  \<open>m\<close>. \<open>ThrewOther\<close>: it threw a value that is not an \<^verbatim>\<open>Error\<close>.
\<close>

datatype 'a fetch_result = Fetched 'a | NotOk "string option" | ThrewError string | ThrewOther

record backend_answer =
  questionId :: "int option"
  selectedOption :: int

datatype body = StartBody "string list" | SubmitBody "backend_answer list"

record request =
  http_method :: string
  url :: string
  headers :: "(string \<times> string) list"
  body :: "body option"

record start_data =
  questions :: "Question list"
  timeLimitSeconds :: int

definition API_BASE_URL :: string where
  "API_BASE_URL = ''https://profiler-backend-5plw.onrender.com''"

text \<open>\<^verbatim>\<open>a || b\<close> on an optional string: \<open>b\<close> when \<open>a\<close> is missing or empty.\<close>

definition or_else :: "string option \<Rightarrow> string \<Rightarrow> string" where
  "or_else a b = (case a of None \<Rightarrow> b | Some m \<Rightarrow> if m = [] then b else m)"

text \<open>
  An asynchronous handler runs in two parts: up to its \<^verbatim>\<open>await fetch\<close>, which gives the
  new state and the request, and from the outcome of the request to its end.
\<close>

definition fetchCategories_call :: request where
  "fetchCategories_call =
     \<lparr>http_method = ''GET'', url = API_BASE_URL @ ''/categories'', headers = [], body = None\<rparr>"

definition fetchCategories_settle :: "App_state \<Rightarrow> Category list fetch_result \<Rightarrow> App_state" where
  "fetchCategories_settle app r =
     (case r of
        Fetched data \<Rightarrow> app\<lparr>allCategories := data\<rparr>
      | NotOk _ \<Rightarrow> app\<lparr>error := Some ''Failed to fetch categories''\<rparr>
      | ThrewError m \<Rightarrow> app\<lparr>error := Some m\<rparr>
      | ThrewOther \<Rightarrow> app\<lparr>error := Some ''Failed to load categories.''\<rparr>)"

definition handleStartTest_call :: "App_state \<Rightarrow> Category list \<Rightarrow> App_state \<times> request" where
  "handleStartTest_call app categories =
     (app\<lparr>screen := Loading, error := None\<rparr>,
      \<lparr>http_method = ''POST'', url = API_BASE_URL @ ''/start-test'',
       headers = [(''Content-Type'', ''application/json'')],
       body = Some (StartBody (map c_id categories))\<rparr>)"

definition handleStartTest_settle :: "App_state \<Rightarrow> start_data fetch_result \<Rightarrow> App_state" where
  "handleStartTest_settle app r =
     (case r of
        Fetched data \<Rightarrow>
          app\<lparr>quizQuestions := questions data, timeLimit := timeLimitSeconds data,
              testResults := None, analysis := None, screen := Test\<rparr>
      | NotOk detail \<Rightarrow>
          app\<lparr>error := Some (or_else detail ''Failed to start test''), screen := Selection\<rparr>
      | ThrewError m \<Rightarrow> app\<lparr>error := Some m, screen := Selection\<rparr>
      | ThrewOther \<Rightarrow> app\<lparr>error := Some ''An unknown error occurred.'', screen := Selection\<rparr>)"

definition backendAnswers :: "UserAnswer \<Rightarrow> backend_answer list" where
  "backendAnswers answers =
     map (\<lambda>(qid, option). \<lparr>questionId = parseInt qid, selectedOption = option\<rparr>) answers"

definition handleSubmitTest_call :: "App_state \<Rightarrow> UserAnswer \<Rightarrow> App_state \<times> request" where
  "handleSubmitTest_call app answers =
     (app\<lparr>screen := Loading, error := None\<rparr>,
      \<lparr>http_method = ''POST'', url = API_BASE_URL @ ''/submit-test'',
       headers = [(''Content-Type'', ''application/json'')],
       body = Some (SubmitBody (backendAnswers answers))\<rparr>)"

text \<open>The \<^verbatim>\<open>try\<close> and \<^verbatim>\<open>catch\<close> blocks after the request, then the \<^verbatim>\<open>finally\<close> block.\<close>

definition handleSubmitTest_settle :: "App_state \<Rightarrow> SubmitResponse fetch_result \<Rightarrow> App_state" where
  "handleSubmitTest_settle app r =
     (case r of
        Fetched data \<Rightarrow> app\<lparr>testResults := Some (results data), analysis := Some (sr_analysis data)\<rparr>
      | NotOk detail \<Rightarrow> app\<lparr>error := Some (or_else detail ''Failed to submit test'')\<rparr>
      | ThrewError m \<Rightarrow> app\<lparr>error := Some m\<rparr>
      | ThrewOther \<Rightarrow>
          app\<lparr>error := Some ''An unknown error occurred while fetching your analysis.''\<rparr>)
     \<lparr>screen := Results\<rparr>"

text \<open>A whole call of \<^verbatim>\<open>handleSubmitTest\<close> whose request has the outcome \<open>r\<close>.\<close>

definition handleSubmitTest :: "App_state \<Rightarrow> UserAnswer \<Rightarrow> SubmitResponse fetch_result \<Rightarrow> App_state" where
  "handleSubmitTest app answers r = handleSubmitTest_settle (fst (handleSubmitTest_call app answers)) r"

definition handleTestAgain :: "App_state \<Rightarrow> App_state" where
  "handleTestAgain app =
     app\<lparr>screen := Selection, quizQuestions := [], testResults := None, analysis := None,
         error := None\<rparr>"

datatype view =
    CategorySelectionScreen "Category list"
  | TestScreen "Question list" int
  | LoadingScreen
  | ResultsScreen TestResults "Analysis option" "string option"

definition renderScreen :: "App_state \<Rightarrow> view" where
  "renderScreen app =
     (case screen app of
        Selection \<Rightarrow> CategorySelectionScreen (allCategories app)
      | Test \<Rightarrow> TestScreen (quizQuestions app) (timeLimit app)
      | Loading \<Rightarrow> LoadingScreen
      | Results \<Rightarrow>
          (case testResults app of
             None \<Rightarrow> LoadingScreen
           | Some r \<Rightarrow> ResultsScreen r (analysis app) (error app)))"

subsection \<open>The running client\<close>

text \<open>
  The state of the page: the state of \<open>App\<close>, the local state of the selection screen and
  of the test screen (each set anew when its component mounts), which handler is waiting
  for its request, and whether the request for the categories is still out.
\<close>

datatype pending = NoCall | StartCall | SubmitCall

record sys =
  app :: App_state
  selected :: "string set"
  test :: TestScreen_state
  awaiting :: pending
  categoriesLoading :: bool

text \<open>
  What can happen: a request settles, the user clicks a control that is rendered and
  enabled, the interval fires, or the timeout hook of the test screen runs.
\<close>

datatype event =
    CategoriesSettled "Category list fetch_result"
  | ClickCategory string
  | ClickStart
  | StartSettled "start_data fetch_result"
  | ClickOption int
  | ClickNext
  | ClickPrev
  | ClickSubmit
  | Tick
  | Timeout
  | SubmitSettled "SubmitResponse fetch_result"
  | ClickTestAgain

definition mount_App :: "sys \<times> request list" where
  "mount_App =
     (\<lparr>app = initial_App, selected = {}, test = mount_TestScreen 0, awaiting = NoCall,
       categoriesLoading = True\<rparr>,
      [fetchCategories_call])"

text \<open>The test screen is rendered when the screen is \<open>Test\<close> and rendering does not throw.\<close>

definition test_rendered :: "sys \<Rightarrow> bool" where
  "test_rendered s =
     (screen (app s) = Test \<and> option_buttons (quizQuestions (app s)) (test s) \<noteq> None)"

text \<open>
  The hooks run after a render and before the next event: once the timeout hook has
  something to submit, nothing else happens on the test screen before it has run.
\<close>

definition test_live :: "sys \<Rightarrow> bool" where
  "test_live s = (test_rendered s \<and> timeout_hook (quizQuestions (app s)) (test s) = None)"

text \<open>\<^verbatim>\<open>onSubmit(answers)\<close> from the test screen.\<close>

definition submit :: "sys \<Rightarrow> UserAnswer \<Rightarrow> sys \<times> request list" where
  "submit s answers =
     (let (a, rq) = handleSubmitTest_call (app s) answers
      in (s\<lparr>app := a, awaiting := SubmitCall\<rparr>, [rq]))"

definition step :: "sys \<Rightarrow> event \<Rightarrow> (sys \<times> request list) option" where
  "step s e =
     (case e of
        CategoriesSettled r \<Rightarrow>
          if categoriesLoading s
          then Some (s\<lparr>app := fetchCategories_settle (app s) r, categoriesLoading := False\<rparr>, [])
          else None
      | ClickCategory i \<Rightarrow>
          if screen (app s) = Selection \<and> i \<in> c_id ` set (allCategories (app s))
          then Some (s\<lparr>selected := handleSelect (selected s) i\<rparr>, [])
          else None
      | ClickStart \<Rightarrow>
          if screen (app s) = Selection \<and> selected s \<noteq> {}
          then (let (a, rq) =
                  handleStartTest_call (app s) (handleStart (allCategories (app s)) (selected s))
                in Some (s\<lparr>app := a, awaiting := StartCall\<rparr>, [rq]))
          else None
      | StartSettled r \<Rightarrow>
          if awaiting s = StartCall
          then (let a = handleStartTest_settle (app s) r
                in Some (s\<lparr>app := a, awaiting := NoCall, selected := {},
                           test := mount_TestScreen (timeLimit a)\<rparr>, []))
          else None
      | ClickOption i \<Rightarrow>
          if test_live s
          then (case option_buttons (quizQuestions (app s)) (test s) of
                  None \<Rightarrow> None
                | Some buttons \<Rightarrow>
                    if i \<in> set buttons
                    then (case handleAnswerSelect (quizQuestions (app s)) (test s) i of
                            None \<Rightarrow> None
                          | Some ts \<Rightarrow> Some (s\<lparr>test := ts\<rparr>, []))
                    else None)
          else None
      | ClickNext \<Rightarrow>
          if test_live s \<and> shows_next (quizQuestions (app s)) (test s)
          then Some (s\<lparr>test := handleNext (quizQuestions (app s)) (test s)\<rparr>, [])
          else None
      | ClickPrev \<Rightarrow>
          if test_live s \<and> \<not> prev_disabled (test s)
          then Some (s\<lparr>test := handlePrev (test s)\<rparr>, [])
          else None
      | ClickSubmit \<Rightarrow>
          if test_live s \<and> \<not> shows_next (quizQuestions (app s)) (test s)
          then Some (submit s (userAnswers (test s)))
          else None
      | Tick \<Rightarrow>
          if test_live s \<and> timerActive (test s)
          then Some (s\<lparr>test := tick (test s)\<rparr>, [])
          else None
      | Timeout \<Rightarrow>
          if test_rendered s
          then (case timeout_hook (quizQuestions (app s)) (test s) of
                  None \<Rightarrow> None
                | Some answers \<Rightarrow> Some (submit s answers))
          else None
      | SubmitSettled r \<Rightarrow>
          if awaiting s = SubmitCall
          then Some (s\<lparr>app := handleSubmitTest_settle (app s) r, awaiting := NoCall\<rparr>, [])
          else None
      | ClickTestAgain \<Rightarrow>
          (case renderScreen (app s) of
             ResultsScreen _ _ _ \<Rightarrow> Some (s\<lparr>app := handleTestAgain (app s), selected := {}\<rparr>, [])
           | _ \<Rightarrow> None))"

text \<open>
  A run: the events one after the other, each enabled where it happens. Its value lists,
  for each event, the state it leads to and the requests it sends.
\<close>

fun run :: "sys \<Rightarrow> event list \<Rightarrow> (sys \<times> request list) list option" where
  "run s [] = Some []"
| "run s (e # es) =
     (case step s e of
        None \<Rightarrow> None
      | Some (s', rqs) \<Rightarrow>
          (case run s' es of
             None \<Rightarrow> None
           | Some tr \<Rightarrow> Some ((s', rqs) # tr)))"

text \<open>The states of a run, the first one included.\<close>

definition states :: "sys \<Rightarrow> (sys \<times> request list) list \<Rightarrow> sys list" where
  "states s tr = s # map fst tr"

text \<open>
  The answers refer to options that exist: every entry has the key of one of the questions
  and, as its value, the index of one of the options of that question.
\<close>

definition answers_valid :: "Question list \<Rightarrow> UserAnswer \<Rightarrow> bool" where
  "answers_valid qs answers =
     (\<forall>(k, i) \<in> set answers.
        \<exists>q \<in> set qs. toString (q_id q) = k \<and> 0 \<le> i \<and> i < int (length (options q)))"

section \<open>The grading of the backend\<close>

text \<open>
  Modelled from the spec: the scoring behind \<^verbatim>\<open>/submit-test\<close>, which belongs to the
  backend and is not among the sources; only its caller \<open>handleSubmitTest\<close> and the type
  \<open>TestResults\<close> of its result are. The spec describes it as: "compare submitted answers
  to an answer key, tally per-category correctness". The answer key gives, for a question
  id, the category of the question and the index of its right option. An answer whose id
  the key does not know is not graded.
\<close>

record key_entry =
  k_category :: string
  k_answer :: int

definition compare_answers :: "(int \<times> key_entry) list \<Rightarrow> backend_answer list \<Rightarrow> (string \<times> bool) list" where
  "compare_answers answer_key answers =
     List.map_filter
       (\<lambda>a. case questionId a of
               None \<Rightarrow> None
             | Some q \<Rightarrow>
                 (case map_of answer_key q of
                    None \<Rightarrow> None
                  | Some k \<Rightarrow> Some (k_category k, selectedOption a = k_answer k)))
       answers"

definition score :: "bool \<Rightarrow> int" where
  "score ok = (if ok then 1 else 0)"

fun tally_add :: "string \<Rightarrow> bool \<Rightarrow> (string \<times> CategoryResult) list \<Rightarrow> (string \<times> CategoryResult) list" where
  "tally_add c ok [] = [(c, \<lparr>correct = score ok, cr_total = 1\<rparr>)]"
| "tally_add c ok ((c', r) # rest) =
     (if c' = c then (c', r\<lparr>correct := correct r + score ok, cr_total := cr_total r + 1\<rparr>) # rest
      else (c', r) # tally_add c ok rest)"

definition tally :: "(string \<times> bool) list \<Rightarrow> (string \<times> CategoryResult) list" where
  "tally graded = foldl (\<lambda>acc (c, ok). tally_add c ok acc) [] graded"

definition grade :: "(int \<times> key_entry) list \<Rightarrow> backend_answer list \<Rightarrow> TestResults" where
  "grade answer_key answers =
     (let graded = compare_answers answer_key answers
      in \<lparr>totalCorrect = int (length (filter snd graded)),
          totalQuestions = int (length graded),
          categoryResults = tally graded\<rparr>)"

text \<open>The sums over the entries of \<open>categoryResults\<close>.\<close>

definition sum_correct :: "TestResults \<Rightarrow> int" where
  "sum_correct r = sum_list (map (\<lambda>(c, cr). correct cr) (categoryResults r))"

definition sum_total :: "TestResults \<Rightarrow> int" where
  "sum_total r = sum_list (map (\<lambda>(c, cr). cr_total cr) (categoryResults r))"

section \<open>Examples for the concrete checks\<close>

definition example_store :: "int store" where
  "example_store = \<lparr>arrays = (\<lambda>r. if r = 0 then Some [1, 2, 3] else None), fresh = 1\<rparr>"

definition example_rng :: rng where
  "example_rng = \<lparr>draws = (\<lambda>n. if n = 1 then 0.2 else 0.9), drawn = 0\<rparr>"

definition example_category :: Category where
  "example_category =
     \<lparr>c_id = ''memory'', c_title = ''Memory'', description = ''Recall of lists'', icon = ''brain''\<rparr>"

definition example_question :: Question where
  "example_question =
     \<lparr>q_id = 7, category = ''Memory'', questionText = ''Which word was third?'',
      options = [''oak'', ''elm'', ''ash'']\<rparr>"

definition example_start :: start_data where
  "example_start = \<lparr>questions = [example_question], timeLimitSeconds = 1\<rparr>"

definition example_response :: SubmitResponse where
  "example_response =
     \<lparr>results = \<lparr>totalCorrect = 1, totalQuestions = 1,
                 categoryResults = [(''Memory'', \<lparr>correct = 1, cr_total = 1\<rparr>)]\<rparr>,
      sr_analysis = \<lparr>a_title = ''Sharp'', overall_summary = ''Good'', strengths_analysis = ''Memory'',
                    growth_analysis = ''None'', action_item = ''Rest''\<rparr>\<rparr>"

text \<open>
  A visit: the categories arrive, the user selects one and starts, answers the question
  with its third option, lets the second of the limit pass, and the answers are submitted
  when the time is up; the results arrive, and the user goes back to the selection.
\<close>

definition example_events :: "event list" where
  "example_events =
     [CategoriesSettled (Fetched [example_category]), ClickCategory ''memory'', ClickStart,
      StartSettled (Fetched example_start), ClickOption 2, Tick, Timeout,
      SubmitSettled (Fetched example_response), ClickTestAgain]"

text \<open>The test screen with one second left and an answer recorded.\<close>

definition example_test_sys :: sys where
  "example_test_sys =
     \<lparr>app = \<lparr>screen = Test, quizQuestions = [example_question], testResults = None,
             analysis = None, error = None, allCategories = [example_category], timeLimit = 1\<rparr>,
      selected = {},
      test = \<lparr>currentQuestionIndex = 0, userAnswers = [(''7'', 2)], timeLeft = 1,
              timerActive = True\<rparr>,
      awaiting = NoCall, categoriesLoading = False\<rparr>"

text \<open>The visit again, with a backend that fails when the answers are submitted.\<close>

definition example_failed_events :: "event list" where
  "example_failed_events =
     [CategoriesSettled (Fetched [example_category]), ClickCategory ''memory'', ClickStart,
      StartSettled (Fetched example_start), ClickOption 2, Tick, Timeout,
      SubmitSettled (NotOk None)]"

definition example_key :: "(int \<times> key_entry) list" where
  "example_key = [(7, \<lparr>k_category = ''Memory'', k_answer = 2\<rparr>)]"

section \<open>Properties\<close>

declare digits.simps [simp del]

subsection \<open>The countdown\<close>

lemma tick_closed_form:
  "0 \<le> L \<Longrightarrow> timeLeft ((tick ^^ n) (mount_TestScreen L)) = max 0 (L - int n)
     \<and> timerActive ((tick ^^ n) (mount_TestScreen L)) = (0 < L - int n)"
  by (induction n) (auto simp: mount_TestScreen_def countdown_hook_def tick_def)

text \<open>
  C2: the countdown never shows negative time. For a test screen mounted with a time limit
  \<open>L\<close> of whole seconds, \<open>L \<ge> 0\<close>, the remaining time starts at \<open>L\<close>; after \<open>n\<close>
  firings of the interval it is \<open>L - n\<close> as long as that is positive and 0 from then on,
  so it goes down by one per tick, stays at 0 once it is there, and is never negative.
\<close>

theorem countdown_never_negative:
  assumes "0 \<le> L"
  shows "timeLeft (mount_TestScreen L) = L
       \<and> (\<forall>n. timeLeft ((tick ^^ n) (mount_TestScreen L)) = max 0 (L - int n))
       \<and> (\<forall>n. 0 \<le> timeLeft ((tick ^^ n) (mount_TestScreen L)))"
proof -
  have start: "timeLeft (mount_TestScreen L) = L"
    by (simp add: mount_TestScreen_def countdown_hook_def)
  have closed: "timeLeft ((tick ^^ n) (mount_TestScreen L)) = max 0 (L - int n)" for n
    using tick_closed_form [OF assms, of n] by blast
  have "0 \<le> timeLeft ((tick ^^ n) (mount_TestScreen L))" for n
    unfolding closed by simp
  with start closed show ?thesis by blast
qed

theorem countdown_never_negative_witness:
  "(0::int) \<le> 2 \<and> timeLeft (mount_TestScreen 2) = 2
     \<and> timeLeft (tick (mount_TestScreen 2)) = 1
     \<and> timeLeft (tick (tick (mount_TestScreen 2))) = 0
     \<and> timeLeft (tick (tick (tick (mount_TestScreen 2)))) = 0"
  using countdown_never_negative [of 2]
  by (simp add: mount_TestScreen_def countdown_hook_def tick_def)

subsection \<open>The selection of categories\<close>

text \<open>
  C10: selecting is a toggle. \<open>handleSelect\<close> on the selection \<open>S\<close> and the category id
  \<open>c\<close> flips whether \<open>c\<close> is selected and leaves every other id as it was; twice in a
  row it gives \<open>S\<close> back.
\<close>

theorem handleSelect_toggle:
  "(c \<in> handleSelect S c) = (c \<notin> S)
     \<and> handleSelect S c - {c} = S - {c}
     \<and> handleSelect (handleSelect S c) c = S"
  by (auto simp: handleSelect_def)

subsection \<open>The result bars\<close>

text \<open>
  C7: the percentage of a result bar is guarded. For the counts \<open>correct\<close> and \<open>total\<close>
  the width is \<open>correct / total * 100\<close> when \<open>total > 0\<close> and 0 when \<open>total = 0\<close>; it
  is always a finite number, so no division by zero is ever evaluated.
\<close>

theorem percentage_guarded:
  "(0 < t \<longrightarrow> percentage c t = Finite (real_of_int c / real_of_int t * 100))
     \<and> (t = 0 \<longrightarrow> percentage c t = Finite 0)
     \<and> percentage c t \<noteq> NonFinite"
  by (simp add: percentage_def)

theorem percentage_guarded_witness:
  "(0::int) < 4 \<and> percentage 3 4 = Finite 75 \<and> percentage 0 0 = Finite 0
     \<and> percentage 3 4 \<noteq> NonFinite \<and> percentage 0 0 \<noteq> NonFinite"
  using percentage_guarded [of 4 3] percentage_guarded [of 0 0]
  by simp

subsection \<open>Shuffling\<close>

lemma mset_sort_insert: "mset (fst (sort_insert comparefn x ys g)) = add_mset x (mset ys)"
proof (induction ys arbitrary: g)
  case Nil
  show ?case by simp
next
  case (Cons y ys)
  obtain c g1 where c: "comparefn x y g = (c, g1)"
    by (cases "comparefn x y g")
  obtain zs g2 where z: "sort_insert comparefn x ys g1 = (zs, g2)"
    by (cases "sort_insert comparefn x ys g1")
  from Cons.IH [of g1] z have "mset zs = add_mset x (mset ys)" by simp
  with c z show ?case by simp
qed

lemma mset_sort_list: "mset (fst (sort_list comparefn xs g)) = mset xs"
proof (induction xs arbitrary: g)
  case Nil
  show ?case by simp
next
  case (Cons x xs)
  obtain ys g' where s: "sort_list comparefn xs g = (ys, g')"
    by (cases "sort_list comparefn xs g")
  with Cons.IH [of g] have "mset ys = mset xs" by simp
  with s show ?case by (simp add: mset_sort_insert)
qed

text \<open>
  C9: \<open>shuffleArray\<close> is a permutation that leaves its argument alone. For an array \<open>a\<close>
  of the store with the elements \<open>xs\<close>, and whatever \<^verbatim>\<open>Math.random\<close> draws, the call
  returns a reference to another array, whose elements are those of \<open>xs\<close> with the same
  multiplicities; \<open>a\<close> still holds \<open>xs\<close>, and no array but the new one has changed.
\<close>

theorem shuffleArray_permutation:
  assumes "arrays st a = Some xs" and "a < fresh st"
  shows "\<exists>copy st' g' ys.
           shuffleArray st g a = Some (copy, st', g')
         \<and> arrays st' copy = Some ys \<and> mset ys = mset xs
         \<and> copy \<noteq> a \<and> arrays st' a = Some xs
         \<and> (\<forall>r. r \<noteq> copy \<longrightarrow> arrays st' r = arrays st r)"
proof -
  obtain ys g' where s: "sort_list shuffle_compare xs g = (ys, g')"
    by (cases "sort_list shuffle_compare xs g")
  have m: "mset ys = mset xs"
    using mset_sort_list [of shuffle_compare xs g] s by simp
  show ?thesis
    using assms s m
    by (auto simp: shuffleArray_def spread_def Array_sort_def)
qed

theorem shuffleArray_permutation_witness:
  "arrays example_store 0 = Some [1, 2, 3] \<and> 0 < fresh example_store
     \<and> map_option (\<lambda>(copy, st', g'). (copy, arrays st' copy, arrays st' 0))
         (shuffleArray example_store example_rng 0)
       = Some (1, Some [1, 3, 2], Some [1, 2, 3])"
  using shuffleArray_permutation [of example_store 0 "[1, 2, 3]" example_rng]
  by (simp add: example_store_def example_rng_def shuffleArray_def spread_def Array_sort_def
      shuffle_compare_def Math_random_def)

subsection \<open>Runs of the client\<close>

lemmas step_defs = step_def test_live_def test_rendered_def submit_def
  handleSubmitTest_call_def handleStartTest_call_def handleStartTest_settle_def
  handleSubmitTest_settle_def fetchCategories_settle_def handleTestAgain_def renderScreen_def

lemma step_awaiting_loading:
  assumes "step s e = Some (s', rqs)" and "awaiting s \<noteq> NoCall \<longrightarrow> screen (app s) = Loading"
  shows "awaiting s' \<noteq> NoCall \<longrightarrow> screen (app s') = Loading"
  using assms
  by (cases e) (auto simp: step_defs split: if_splits option.splits fetch_result.splits Screen.splits)

lemma step_enters_results:
  assumes "step s e = Some (s', rqs)" and "screen (app s') = Results" and "screen (app s) \<noteq> Results"
  shows "awaiting s = SubmitCall \<and> (\<exists>r. e = SubmitSettled r)"
  using assms
  by (cases e) (auto simp: step_defs split: if_splits option.splits fetch_result.splits Screen.splits)

lemma step_begins_submit:
  assumes "step s e = Some (s', rqs)" and "awaiting s' = SubmitCall" and "awaiting s \<noteq> SubmitCall"
  shows "screen (app s) = Test \<and> e \<in> {ClickSubmit, Timeout}"
  using assms
  by (cases e) (auto simp: step_defs split: if_splits option.splits fetch_result.splits Screen.splits)

lemma step_screens:
  assumes "step s e = Some (s', rqs)" and "awaiting s \<noteq> NoCall \<longrightarrow> screen (app s) = Loading"
  shows "(screen (app s), screen (app s')) \<in>
           {(Selection, Selection), (Selection, Loading), (Loading, Loading), (Loading, Selection),
            (Loading, Test), (Test, Test), (Test, Loading), (Loading, Results),
            (Results, Results), (Results, Selection)}"
  using assms
  by (cases e; cases "screen (app s)")
     (auto simp: step_defs split: if_splits option.splits fetch_result.splits Screen.splits)

lemma run_length: "run s es = Some tr \<Longrightarrow> length tr = length es"
  by (induction es arbitrary: s tr) (auto split: option.splits)

lemma run_Cons:
  "run s (e # es) = Some tr \<longleftrightarrow>
     (\<exists>s' rqs tr'. step s e = Some (s', rqs) \<and> run s' es = Some tr' \<and> tr = (s', rqs) # tr')"
  by (auto split: option.splits)

lemma run_step:
  "run s es = Some tr \<Longrightarrow> i < length es \<Longrightarrow> step (states s tr ! i) (es ! i) = Some (tr ! i)"
proof (induction es arbitrary: s tr i)
  case Nil
  then show ?case by simp
next
  case (Cons e es)
  from Cons.prems(1) obtain s' rqs tr' where
    st: "step s e = Some (s', rqs)" and r: "run s' es = Some tr'" and tr: "tr = (s', rqs) # tr'"
    unfolding run_Cons by blast
  show ?case
  proof (cases i)
    case 0
    with st tr show ?thesis by (simp add: states_def)
  next
    case (Suc j)
    with Cons.prems(2) have "j < length es" by simp
    from Cons.IH [OF r this] Suc tr show ?thesis by (simp add: states_def)
  qed
qed

lemma states_Suc: "i < length tr \<Longrightarrow> states s tr ! Suc i = fst (tr ! i)"
  by (simp add: states_def)

lemma states_Cons: "states s ((s', rqs) # tr') = s # states s' tr'"
  by (simp add: states_def)

lemma enters_results_from:
  assumes "run s es = Some tr"
      and "awaiting s \<noteq> NoCall \<longrightarrow> screen (app s) = Loading"
      and "i < length es"
      and "screen (app (states s tr ! Suc i)) = Results"
      and "screen (app (states s tr ! i)) \<noteq> Results"
  shows "screen (app (states s tr ! i)) = Loading \<and>
         ((\<exists>j<i. screen (app (states s tr ! j)) = Test \<and> es ! j \<in> {ClickSubmit, Timeout}
                \<and> (\<forall>k. j < k \<and> k \<le> i \<longrightarrow> screen (app (states s tr ! k)) = Loading))
          \<or> (awaiting s = SubmitCall \<and> (\<forall>k\<le>i. screen (app (states s tr ! k)) = Loading)))"
  using assms
proof (induction es arbitrary: s tr i)
  case Nil
  then show ?case by simp
next
  case (Cons e es)
  from Cons.prems(1) obtain s' rqs tr' where
    st: "step s e = Some (s', rqs)" and r: "run s' es = Some tr'" and tr: "tr = (s', rqs) # tr'"
    unfolding run_Cons by blast
  have inv': "awaiting s' \<noteq> NoCall \<longrightarrow> screen (app s') = Loading"
    using step_awaiting_loading [OF st Cons.prems(2)] .
  have sts: "states s tr = s # states s' tr'"
    by (simp add: tr states_Cons)
  have hd': "states s' tr' ! 0 = s'"
    by (simp add: states_def)
  show ?case
  proof (cases i)
    case 0
    with Cons.prems(4,5) sts hd' have "screen (app s') = Results" "screen (app s) \<noteq> Results"
      by simp_all
    from step_enters_results [OF st this] have aw: "awaiting s = SubmitCall" by blast
    with Cons.prems(2) have "screen (app s) = Loading" by simp
    with aw 0 sts show ?thesis by simp
  next
    case (Suc m)
    with Cons.prems(3) have m: "m < length es" by simp
    from Cons.prems(4,5) Suc sts
    have "screen (app (states s' tr' ! Suc m)) = Results" "screen (app (states s' tr' ! m)) \<noteq> Results"
      by simp_all
    from Cons.IH [OF r inv' m this]
    have load: "screen (app (states s' tr' ! m)) = Loading"
      and alt: "(\<exists>j<m. screen (app (states s' tr' ! j)) = Test \<and> es ! j \<in> {ClickSubmit, Timeout}
                  \<and> (\<forall>k. j < k \<and> k \<le> m \<longrightarrow> screen (app (states s' tr' ! k)) = Loading))
               \<or> (awaiting s' = SubmitCall \<and> (\<forall>k\<le>m. screen (app (states s' tr' ! k)) = Loading))"
      by blast+
    from alt show ?thesis
    proof
      assume "\<exists>j<m. screen (app (states s' tr' ! j)) = Test \<and> es ! j \<in> {ClickSubmit, Timeout}
                  \<and> (\<forall>k. j < k \<and> k \<le> m \<longrightarrow> screen (app (states s' tr' ! k)) = Loading)"
      then obtain j where j: "j < m" "screen (app (states s' tr' ! j)) = Test"
          "es ! j \<in> {ClickSubmit, Timeout}"
          "\<forall>k. j < k \<and> k \<le> m \<longrightarrow> screen (app (states s' tr' ! k)) = Loading"
        by blast
      have between: "screen (app (states s tr ! k)) = Loading" if "Suc j < k \<and> k \<le> i" for k
      proof (cases k)
        case 0
        with that show ?thesis by simp
      next
        case (Suc k')
        with that Suc j(4) sts show ?thesis by (simp add: \<open>i = Suc m\<close>)
      qed
      have "Suc j < i" "screen (app (states s tr ! Suc j)) = Test"
           "(e # es) ! Suc j \<in> {ClickSubmit, Timeout}"
        using j Suc sts by simp_all
      with between load Suc sts show ?thesis by auto
    next
      assume b: "awaiting s' = SubmitCall \<and> (\<forall>k\<le>m. screen (app (states s' tr' ! k)) = Loading)"
      have later: "screen (app (states s tr ! k)) = Loading" if "0 < k \<and> k \<le> i" for k
      proof (cases k)
        case 0
        with that show ?thesis by simp
      next
        case (Suc k')
        with that b sts show ?thesis by (simp add: \<open>i = Suc m\<close>)
      qed
      show ?thesis
      proof (cases "awaiting s = SubmitCall")
        case True
        with Cons.prems(2) have "screen (app s) = Loading" by simp
        with later sts have "\<forall>k\<le>i. screen (app (states s tr ! k)) = Loading"
          by (metis gr0I nth_Cons_0)
        with True load Suc sts show ?thesis by simp
      next
        case False
        from step_begins_submit [OF st _ False] b
        have "screen (app s) = Test" "e \<in> {ClickSubmit, Timeout}" by blast+
        then have "0 < i" "screen (app (states s tr ! 0)) = Test" "(e # es) ! 0 \<in> {ClickSubmit, Timeout}"
          using Suc sts by simp_all
        with later load Suc sts show ?thesis by auto
      qed
    qed
  qed
qed

lemmas eval_defs = mount_App_def initial_App_def mount_TestScreen_def countdown_hook_def
  example_events_def example_category_def example_question_def example_start_def
  example_response_def handleSelect_def handleStart_def option_buttons_def question_at_def
  timeout_hook_def handleAnswerSelect_def tick_def shows_next_def prev_disabled_def
  handleNext_def handlePrev_def obj_set_def array_index_def is_digit_def digits_val_def
  digit_val_def digit_def toString_def digits.simps backendAnswers_def parseInt_def states_def
  API_BASE_URL_def

lemma run_invariant:
  assumes "run s es = Some tr" and "P s"
      and "\<And>s e s' rqs. step s e = Some (s', rqs) \<Longrightarrow> P s \<Longrightarrow> P s'"
      and "i \<le> length es"
  shows "P (states s tr ! i)"
  using assms(1,2,4)
proof (induction es arbitrary: s tr i)
  case Nil
  then show ?case by (simp add: states_def)
next
  case (Cons e es)
  from Cons.prems(1) obtain s' rqs tr' where
    st: "step s e = Some (s', rqs)" and r: "run s' es = Some tr'" and tr: "tr = (s', rqs) # tr'"
    unfolding run_Cons by blast
  show ?case
  proof (cases i)
    case 0
    with Cons.prems(2) show ?thesis by (simp add: states_def)
  next
    case (Suc m)
    with Cons.prems(3) have "m \<le> length es" by simp
    from Cons.IH [OF r assms(3) [OF st Cons.prems(2)] this] Suc tr
    show ?thesis by (simp add: states_Cons)
  qed
qed

lemma mount_awaiting: "awaiting (fst mount_App) = NoCall"
  by (simp add: mount_App_def)

lemma run_awaiting_loading:
  assumes "run (fst mount_App) es = Some tr" and "i \<le> length es"
  shows "awaiting (states (fst mount_App) tr ! i) \<noteq> NoCall
           \<longrightarrow> screen (app (states (fst mount_App) tr ! i)) = Loading"
  by (rule run_invariant [OF assms(1) _ _ assms(2)])
     (simp_all add: mount_awaiting step_awaiting_loading)

text \<open>
  C1: the client is a machine of four screens, \<open>Selection\<close>, \<open>Test\<close>, \<open>Loading\<close> and
  \<open>Results\<close>, that starts on the selection. In every run of the client each event keeps
  the screen or follows the order selection, loading, test, loading, results, selection
  (a failed start leads from loading back to the selection). Whenever an event enters the
  results screen, the screen before it is \<open>Loading\<close>, and there is an earlier state on the
  test screen where the answers were submitted (by the button or by the timeout), with
  nothing but \<open>Loading\<close> in between: the results are never entered from the selection.
\<close>

theorem results_only_after_submission:
  assumes "run (fst mount_App) es = Some tr" and "st = states (fst mount_App) tr"
  shows "(UNIV :: Screen set) = {Selection, Test, Loading, Results}
       \<and> screen (app (st ! 0)) = Selection
       \<and> (\<forall>i<length es.
            (screen (app (st ! i)), screen (app (st ! Suc i))) \<in>
              {(Selection, Selection), (Selection, Loading), (Loading, Loading),
               (Loading, Selection), (Loading, Test), (Test, Test), (Test, Loading),
               (Loading, Results), (Results, Results), (Results, Selection)})
       \<and> (\<forall>i<length es.
            screen (app (st ! Suc i)) = Results \<and> screen (app (st ! i)) \<noteq> Results \<longrightarrow>
              screen (app (st ! i)) = Loading
            \<and> (\<exists>j<i. screen (app (st ! j)) = Test \<and> es ! j \<in> {ClickSubmit, Timeout}
                   \<and> (\<forall>k. j < k \<and> k \<le> i \<longrightarrow> screen (app (st ! k)) = Loading)))"
proof -
  have four: "(UNIV :: Screen set) = {Selection, Test, Loading, Results}"
  proof -
    have "x \<in> {Selection, Test, Loading, Results}" for x :: Screen
      by (cases x) simp_all
    then show ?thesis by blast
  qed
  have first: "screen (app (st ! 0)) = Selection"
    by (simp add: assms(2) states_def mount_App_def initial_App_def)
  have len: "length tr = length es"
    using run_length [OF assms(1)] .
  have order: "(screen (app (st ! i)), screen (app (st ! Suc i))) \<in>
              {(Selection, Selection), (Selection, Loading), (Loading, Loading),
               (Loading, Selection), (Loading, Test), (Test, Test), (Test, Loading),
               (Loading, Results), (Results, Results), (Results, Selection)}"
    if i: "i < length es" for i
  proof -
    obtain s' rqs where p: "tr ! i = (s', rqs)" by (cases "tr ! i")
    have stp: "step (st ! i) (es ! i) = Some (s', rqs)"
      using run_step [OF assms(1) i] p by (simp add: assms(2))
    have nxt: "st ! Suc i = s'"
      using states_Suc [of i tr "fst mount_App"] i len p by (simp add: assms(2))
    have inv: "awaiting (st ! i) \<noteq> NoCall \<longrightarrow> screen (app (st ! i)) = Loading"
      using run_awaiting_loading [OF assms(1), of i] i by (simp add: assms(2))
    from step_screens [OF stp inv] nxt show ?thesis by simp
  qed
  have enter: "screen (app (st ! i)) = Loading
            \<and> (\<exists>j<i. screen (app (st ! j)) = Test \<and> es ! j \<in> {ClickSubmit, Timeout}
                   \<and> (\<forall>k. j < k \<and> k \<le> i \<longrightarrow> screen (app (st ! k)) = Loading))"
    if i: "i < length es" and r: "screen (app (st ! Suc i)) = Results"
      and n: "screen (app (st ! i)) \<noteq> Results" for i
  proof -
    have inv0: "awaiting (fst mount_App) \<noteq> NoCall \<longrightarrow> screen (app (fst mount_App)) = Loading"
      by (simp add: mount_awaiting)
    from enters_results_from [OF assms(1) inv0 i] r n
    show ?thesis by (simp add: assms(2) mount_awaiting)
  qed
  from four first order enter show ?thesis by blast
qed

lemma example_run_facts:
  "\<exists>tr. run (fst mount_App) example_events = Some tr
     \<and> map (screen \<circ> app) (states (fst mount_App) tr)
         = [Selection, Selection, Selection, Loading, Test, Test, Test, Loading, Results, Selection]
     \<and> map (userAnswers \<circ> test) (states (fst mount_App) tr)
         = [[], [], [], [], [], [(''7'', 2)], [(''7'', 2)], [(''7'', 2)], [(''7'', 2)], [(''7'', 2)]]
     \<and> map snd tr
         = [[], [],
            [\<lparr>http_method = ''POST'',
              url = ''https://profiler-backend-5plw.onrender.com/start-test'',
              headers = [(''Content-Type'', ''application/json'')],
              body = Some (StartBody [''memory''])\<rparr>],
            [], [], [],
            [\<lparr>http_method = ''POST'',
              url = ''https://profiler-backend-5plw.onrender.com/submit-test'',
              headers = [(''Content-Type'', ''application/json'')],
              body = Some (SubmitBody [\<lparr>questionId = Some 7, selectedOption = 2\<rparr>])\<rparr>],
            [], []]"
proof -
  have "map_option
          (\<lambda>tr. (map (screen \<circ> app) (states (fst mount_App) tr),
                 map (userAnswers \<circ> test) (states (fst mount_App) tr), map snd tr))
          (run (fst mount_App) example_events)
        = Some ([Selection, Selection, Selection, Loading, Test, Test, Test, Loading, Results, Selection],
                [[], [], [], [], [], [(''7'', 2)], [(''7'', 2)], [(''7'', 2)], [(''7'', 2)], [(''7'', 2)]],
                [[], [],
            [\<lparr>http_method = ''POST'',
              url = ''https://profiler-backend-5plw.onrender.com/start-test'',
              headers = [(''Content-Type'', ''application/json'')],
              body = Some (StartBody [''memory''])\<rparr>],
            [], [], [],
            [\<lparr>http_method = ''POST'',
              url = ''https://profiler-backend-5plw.onrender.com/submit-test'',
              headers = [(''Content-Type'', ''application/json'')],
              body = Some (SubmitBody [\<lparr>questionId = Some 7, selectedOption = 2\<rparr>])\<rparr>],
            [], []])"
    by (simp add: step_defs eval_defs)
  then show ?thesis
    by (cases "run (fst mount_App) example_events") simp_all
qed

theorem results_only_after_submission_witness:
  "\<exists>tr. run (fst mount_App) example_events = Some tr
     \<and> map (screen \<circ> app) (states (fst mount_App) tr)
         = [Selection, Selection, Selection, Loading, Test, Test, Test, Loading, Results, Selection]
     \<and> example_events ! 6 = Timeout
     \<and> screen (app (states (fst mount_App) tr ! 7)) = Loading
     \<and> (\<exists>j<7. screen (app (states (fst mount_App) tr ! j)) = Test
            \<and> example_events ! j \<in> {ClickSubmit, Timeout}
            \<and> (\<forall>k. j < k \<and> k \<le> 7 \<longrightarrow> screen (app (states (fst mount_App) tr ! k)) = Loading))"
proof -
  from example_run_facts obtain tr where
    f: "run (fst mount_App) example_events = Some tr
     \<and> map (screen \<circ> app) (states (fst mount_App) tr)
         = [Selection, Selection, Selection, Loading, Test, Test, Test, Loading, Results, Selection]
     \<and> map (userAnswers \<circ> test) (states (fst mount_App) tr)
         = [[], [], [], [], [], [(''7'', 2)], [(''7'', 2)], [(''7'', 2)], [(''7'', 2)], [(''7'', 2)]]
     \<and> map snd tr
         = [[], [],
            [\<lparr>http_method = ''POST'',
              url = ''https://profiler-backend-5plw.onrender.com/start-test'',
              headers = [(''Content-Type'', ''application/json'')],
              body = Some (StartBody [''memory''])\<rparr>],
            [], [], [],
            [\<lparr>http_method = ''POST'',
              url = ''https://profiler-backend-5plw.onrender.com/submit-test'',
              headers = [(''Content-Type'', ''application/json'')],
              body = Some (SubmitBody [\<lparr>questionId = Some 7, selectedOption = 2\<rparr>])\<rparr>],
            [], []]" ..
  define st where "st = states (fst mount_App) tr"
  from f have tr: "run (fst mount_App) example_events = Some tr"
    and sc: "map (screen \<circ> app) st
         = [Selection, Selection, Selection, Loading, Test, Test, Test, Loading, Results, Selection]"
    unfolding st_def by (rule conjunct1, rule conjunct2 [THEN conjunct1])
  have ev: "example_events ! 6 = Timeout" and len: "7 < length example_events"
    by (simp_all add: example_events_def)
  from sc have "length (map (screen \<circ> app) st) = 10" by simp
  then have l: "length st = 10" by simp
  have "map (screen \<circ> app) st ! 8 = Results" "map (screen \<circ> app) st ! 7 = Loading"
    unfolding sc by simp_all
  with l have s8: "screen (app (st ! Suc 7)) = Results" and s7: "screen (app (st ! 7)) \<noteq> Results"
    by simp_all
  from results_only_after_submission [OF tr st_def]
  have "\<forall>i<length example_events.
            screen (app (st ! Suc i)) = Results \<and> screen (app (st ! i)) \<noteq> Results \<longrightarrow>
              screen (app (st ! i)) = Loading
            \<and> (\<exists>j<i. screen (app (st ! j)) = Test \<and> example_events ! j \<in> {ClickSubmit, Timeout}
                   \<and> (\<forall>k. j < k \<and> k \<le> i \<longrightarrow> screen (app (st ! k)) = Loading))"
    by (elim conjE)
  from this [rule_format, OF len, OF conjI, OF s8 s7]
  have "screen (app (st ! 7)) = Loading
            \<and> (\<exists>j<7. screen (app (st ! j)) = Test \<and> example_events ! j \<in> {ClickSubmit, Timeout}
                   \<and> (\<forall>k. j < k \<and> k \<le> 7 \<longrightarrow> screen (app (st ! k)) = Loading))" .
  with tr sc ev show ?thesis
    unfolding st_def by (intro exI [of _ tr] conjI) (elim conjE, assumption)+
qed

subsection \<open>Recorded answers\<close>

lemma set_obj_insert_index: "set (obj_insert_index n k v xs) = insert (k, v) (set xs)"
  by (induction xs) (auto split: option.splits if_splits)

lemma set_obj_set: "set (obj_set prev k v) \<subseteq> insert (k, v) (set prev)"
  by (auto simp: obj_set_def set_obj_insert_index split: option.splits if_splits)

lemma map_of_obj_insert_index:
  "k \<notin> fst ` set xs \<Longrightarrow> map_of (obj_insert_index n k v xs) k = Some v"
  by (induction xs) (auto split: option.splits if_splits)

lemma map_of_replace:
  "k \<in> fst ` set xs \<Longrightarrow>
     map_of (map (\<lambda>(k', v'). if k' = k then (k', v) else (k', v')) xs) k = Some v"
  by (induction xs) auto

lemma obj_get_obj_set: "obj_get (obj_set prev k v) k = Some v"
proof (cases "k \<in> fst ` set prev")
  case True
  then show ?thesis
    by (simp add: obj_get_def obj_set_def map_of_replace)
next
  case False
  then have "map_of prev k = None"
    by (simp add: map_of_eq_None_iff)
  with False show ?thesis
    by (cases "array_index k")
       (simp_all add: obj_get_def obj_set_def map_of_obj_insert_index map_add_def)
qed

lemma question_at_Some: "question_at qs i = Some q \<Longrightarrow> q \<in> set qs"
  by (auto simp: question_at_def split: if_splits)

lemma answers_valid_obj_set:
  assumes "answers_valid qs answers" and "q \<in> set qs" and "0 \<le> i" and "i < int (length (options q))"
  shows "answers_valid qs (obj_set answers (toString (q_id q)) i)"
  unfolding answers_valid_def
proof (rule ballI)
  fix e assume "e \<in> set (obj_set answers (toString (q_id q)) i)"
  with set_obj_set have "e = (toString (q_id q), i) \<or> e \<in> set answers" by fastforce
  then show "case e of (k, i) \<Rightarrow>
               \<exists>q\<in>set qs. toString (q_id q) = k \<and> 0 \<le> i \<and> i < int (length (options q))"
  proof
    assume "e = (toString (q_id q), i)"
    with assms(2-4) show ?thesis by auto
  next
    assume "e \<in> set answers"
    with assms(1) show ?thesis unfolding answers_valid_def by blast
  qed
qed

lemma handleAnswerSelect_valid:
  assumes "handleAnswerSelect qs ts a = Some ts'" and "option_buttons qs ts = Some buttons"
    and "a \<in> set buttons" and "answers_valid qs (userAnswers ts)"
  shows "answers_valid qs (userAnswers ts')
       \<and> (\<exists>q. question_at qs (currentQuestionIndex ts) = Some q \<and> 0 \<le> a
              \<and> a < int (length (options q))
              \<and> obj_get (userAnswers ts') (toString (q_id q)) = Some a)"
proof -
  from assms(1) obtain q where q: "question_at qs (currentQuestionIndex ts) = Some q"
    and ts': "ts' = ts\<lparr>userAnswers := obj_set (userAnswers ts) (toString (q_id q)) a\<rparr>"
    by (auto simp: handleAnswerSelect_def split: option.splits)
  from assms(2,3) q have a: "0 \<le> a" "a < int (length (options q))"
    by (auto simp: option_buttons_def)
  from answers_valid_obj_set [OF assms(4) question_at_Some [OF q] a] ts' q a
  show ?thesis by (simp add: obj_get_obj_set)
qed

lemma step_answers_valid:
  assumes "step s e = Some (s', rqs)"
    and "screen (app s) = Test \<longrightarrow> answers_valid (quizQuestions (app s)) (userAnswers (test s))"
  shows "screen (app s') = Test \<longrightarrow> answers_valid (quizQuestions (app s')) (userAnswers (test s'))"
proof (cases e)
  case (ClickOption a)
  with assms(1) obtain buttons ts where
    "screen (app s) = Test" "option_buttons (quizQuestions (app s)) (test s) = Some buttons"
    "a \<in> set buttons" "handleAnswerSelect (quizQuestions (app s)) (test s) a = Some ts"
    "s' = s\<lparr>test := ts\<rparr>"
    by (auto simp: step_def test_live_def test_rendered_def split: if_splits option.splits)
  with handleAnswerSelect_valid [of "quizQuestions (app s)" "test s" a ts buttons] assms(2)
  show ?thesis by simp
next
  case (StartSettled r)
  with assms(1) show ?thesis
    by (auto simp: step_def handleStartTest_settle_def mount_TestScreen_def countdown_hook_def
          answers_valid_def split: if_splits fetch_result.splits)
qed (use assms in \<open>auto simp: step_defs handleNext_def handlePrev_def tick_def
       split: if_splits option.splits fetch_result.splits Screen.splits\<close>)

lemma run_answers_valid:
  assumes "run (fst mount_App) es = Some tr" and "i \<le> length es"
  shows "screen (app (states (fst mount_App) tr ! i)) = Test
           \<longrightarrow> answers_valid (quizQuestions (app (states (fst mount_App) tr ! i)))
                 (userAnswers (test (states (fst mount_App) tr ! i)))"
  by (rule run_invariant [OF assms(1) _ _ assms(2)])
     (simp_all add: mount_App_def initial_App_def step_answers_valid)

lemma step_ClickOption:
  assumes "step s (ClickOption a) = Some (s', rqs)"
  shows "\<exists>buttons ts. screen (app s) = Test
           \<and> option_buttons (quizQuestions (app s)) (test s) = Some buttons \<and> a \<in> set buttons
           \<and> handleAnswerSelect (quizQuestions (app s)) (test s) a = Some ts
           \<and> s' = s\<lparr>test := ts\<rparr> \<and> rqs = []"
  using assms
  by (auto simp: step_def test_live_def test_rendered_def split: if_splits option.splits)

lemma step_submits:
  assumes "step s e = Some (s', rqs)" and "e \<in> {ClickSubmit, Timeout}"
  shows "screen (app s) = Test \<and> (s', rqs) = submit s (userAnswers (test s))"
  using assms
  by (auto simp: step_def test_live_def test_rendered_def timeout_hook_def
        split: if_splits option.splits)

lemma step_requests:
  assumes "step s e = Some (s', rqs)"
  shows "rqs = (case e of
                  ClickStart \<Rightarrow>
                    [snd (handleStartTest_call (app s) (handleStart (allCategories (app s)) (selected s)))]
                | ClickSubmit \<Rightarrow> [snd (handleSubmitTest_call (app s) (userAnswers (test s)))]
                | Timeout \<Rightarrow> [snd (handleSubmitTest_call (app s) (userAnswers (test s)))]
                | _ \<Rightarrow> [])"
  using assms
  by (cases e)
     (auto simp: step_def submit_def timeout_hook_def renderScreen_def Let_def
        split: if_splits option.splits prod.splits Screen.splits)

text \<open>
  C4: submitted answer indices refer to options that exist. In every run of the client,
  on the test screen every entry of \<open>userAnswers\<close> has the key of a question of the test
  and, as its value, an index \<open>i\<close> with \<open>0 \<le> i < q.options.length\<close> for that question
  \<open>q\<close>. A click on an option button makes \<open>handleAnswerSelect\<close> store, under the key of
  the current question \<open>q\<close>, an index \<open>a\<close> with \<open>0 \<le> a < q.options.length\<close>. When the
  answers are submitted, by the button or by the timeout, the request is the one
  \<open>handleSubmitTest\<close> builds from \<open>userAnswers\<close>, and all its entries are valid.
\<close>

theorem submitted_answers_valid:
  assumes "run (fst mount_App) es = Some tr" and "st = states (fst mount_App) tr"
    and "i < length es"
  shows "(screen (app (st ! i)) = Test \<longrightarrow>
            answers_valid (quizQuestions (app (st ! i))) (userAnswers (test (st ! i))))
       \<and> (\<forall>a. es ! i = ClickOption a \<longrightarrow>
            (\<exists>q. question_at (quizQuestions (app (st ! i))) (currentQuestionIndex (test (st ! i))) = Some q
                \<and> 0 \<le> a \<and> a < int (length (options q))
                \<and> obj_get (userAnswers (test (st ! Suc i))) (toString (q_id q)) = Some a))
       \<and> (es ! i \<in> {ClickSubmit, Timeout} \<longrightarrow>
            snd (tr ! i) = [snd (handleSubmitTest_call (app (st ! i)) (userAnswers (test (st ! i))))]
          \<and> answers_valid (quizQuestions (app (st ! i))) (userAnswers (test (st ! i))))"
proof -
  obtain s' rqs where p: "tr ! i = (s', rqs)" by (cases "tr ! i")
  have stp: "step (st ! i) (es ! i) = Some (s', rqs)"
    using run_step [OF assms(1,3)] p by (simp add: assms(2))
  have nxt: "st ! Suc i = s'"
    using states_Suc [of i tr "fst mount_App"] assms(3) run_length [OF assms(1)] p
    by (simp add: assms(2))
  have valid: "screen (app (st ! i)) = Test \<longrightarrow>
            answers_valid (quizQuestions (app (st ! i))) (userAnswers (test (st ! i)))"
    using run_answers_valid [OF assms(1), of i] assms(3) by (simp add: assms(2))
  have recorded: "\<exists>q. question_at (quizQuestions (app (st ! i))) (currentQuestionIndex (test (st ! i))) = Some q
                \<and> 0 \<le> a \<and> a < int (length (options q))
                \<and> obj_get (userAnswers (test (st ! Suc i))) (toString (q_id q)) = Some a"
    if "es ! i = ClickOption a" for a
  proof -
    from stp that step_ClickOption [of "st ! i" a s' rqs]
    obtain buttons ts where b: "screen (app (st ! i)) = Test"
      "option_buttons (quizQuestions (app (st ! i))) (test (st ! i)) = Some buttons" "a \<in> set buttons"
      "handleAnswerSelect (quizQuestions (app (st ! i))) (test (st ! i)) a = Some ts"
      "s' = (st ! i)\<lparr>test := ts\<rparr>"
      by auto
    from handleAnswerSelect_valid [OF b(4) b(2) b(3)] valid b(1) b(5) nxt
    show ?thesis by simp
  qed
  have submitted: "snd (tr ! i) = [snd (handleSubmitTest_call (app (st ! i)) (userAnswers (test (st ! i))))]
          \<and> answers_valid (quizQuestions (app (st ! i))) (userAnswers (test (st ! i)))"
    if "es ! i \<in> {ClickSubmit, Timeout}"
  proof -
    from step_submits [OF stp that] valid p show ?thesis
      by (simp add: submit_def split: prod.splits)
  qed
  from valid recorded submitted show ?thesis by blast
qed

theorem submitted_answers_valid_witness:
  "\<exists>tr. run (fst mount_App) example_events = Some tr
     \<and> (6::nat) < length example_events \<and> example_events ! 6 = Timeout
     \<and> snd (tr ! 6) = [snd (handleSubmitTest_call (app (states (fst mount_App) tr ! 6))
                          (userAnswers (test (states (fst mount_App) tr ! 6))))]
     \<and> answers_valid (quizQuestions (app (states (fst mount_App) tr ! 6)))
          (userAnswers (test (states (fst mount_App) tr ! 6)))
     \<and> userAnswers (test (states (fst mount_App) tr ! 6)) = [(''7'', 2)]"
proof -
  from example_run_facts obtain tr where
    f: "run (fst mount_App) example_events = Some tr
     \<and> map (screen \<circ> app) (states (fst mount_App) tr)
         = [Selection, Selection, Selection, Loading, Test, Test, Test, Loading, Results, Selection]
     \<and> map (userAnswers \<circ> test) (states (fst mount_App) tr)
         = [[], [], [], [], [], [(''7'', 2)], [(''7'', 2)], [(''7'', 2)], [(''7'', 2)], [(''7'', 2)]]
     \<and> map snd tr
         = [[], [],
            [\<lparr>http_method = ''POST'',
              url = ''https://profiler-backend-5plw.onrender.com/start-test'',
              headers = [(''Content-Type'', ''application/json'')],
              body = Some (StartBody [''memory''])\<rparr>],
            [], [], [],
            [\<lparr>http_method = ''POST'',
              url = ''https://profiler-backend-5plw.onrender.com/submit-test'',
              headers = [(''Content-Type'', ''application/json'')],
              body = Some (SubmitBody [\<lparr>questionId = Some 7, selectedOption = 2\<rparr>])\<rparr>],
            [], []]" ..
  define st where "st = states (fst mount_App) tr"
  from f have tr: "run (fst mount_App) example_events = Some tr"
    and ua: "map (userAnswers \<circ> test) st
         = [[], [], [], [], [], [(''7'', 2)], [(''7'', 2)], [(''7'', 2)], [(''7'', 2)], [(''7'', 2)]]"
    unfolding st_def by (rule conjunct1, rule conjunct2 [THEN conjunct2, THEN conjunct1])
  have ev: "example_events ! 6 = Timeout" and len: "6 < length example_events"
    by (simp_all add: example_events_def)
  from ua have "length (map (userAnswers \<circ> test) st) = 10" by simp
  then have l: "length st = 10" by simp
  have "map (userAnswers \<circ> test) st ! 6 = [(''7'', 2)]"
    unfolding ua by simp
  with l have u6: "userAnswers (test (st ! 6)) = [(''7'', 2)]" by simp
  have mem: "example_events ! 6 \<in> {ClickSubmit, Timeout}"
    by (simp add: ev)
  note submitted_answers_valid [OF tr st_def len, THEN conjunct2, THEN conjunct2]
  from this [rule_format, OF mem]
  have "snd (tr ! 6) = [snd (handleSubmitTest_call (app (st ! 6)) (userAnswers (test (st ! 6))))]
          \<and> answers_valid (quizQuestions (app (st ! 6))) (userAnswers (test (st ! 6)))" .
  with tr len ev u6 show ?thesis
    unfolding st_def by (intro exI [of _ tr] conjI) (elim conjE, assumption)+
qed

subsection \<open>Requests\<close>

text \<open>
  C6: the client calls three endpoints of the backend and no other. Mounting \<open>App\<close> sends
  a GET to \<^verbatim>\<open>/categories\<close>. In every run, a click on the start button sends one POST to
  \<^verbatim>\<open>/start-test\<close> whose body holds the ids of the selected categories; a submission of
  the test, by the button or by the timeout, sends one POST to \<^verbatim>\<open>/submit-test\<close> whose
  body holds the recorded answers; every other event sends nothing.
\<close>

theorem three_endpoints:
  assumes "run (fst mount_App) es = Some tr" and "st = states (fst mount_App) tr"
    and "i < length es"
  shows "snd mount_App =
           [\<lparr>http_method = ''GET'',
             url = ''https://profiler-backend-5plw.onrender.com/categories'',
             headers = [], body = None\<rparr>]
       \<and> snd (tr ! i) =
           (case es ! i of
              ClickStart \<Rightarrow>
                [\<lparr>http_method = ''POST'',
                  url = ''https://profiler-backend-5plw.onrender.com/start-test'',
                  headers = [(''Content-Type'', ''application/json'')],
                  body = Some (StartBody
                    (map c_id (filter (\<lambda>cat. c_id cat \<in> selected (st ! i))
                                 (allCategories (app (st ! i))))))\<rparr>]
            | ClickSubmit \<Rightarrow>
                [\<lparr>http_method = ''POST'',
                  url = ''https://profiler-backend-5plw.onrender.com/submit-test'',
                  headers = [(''Content-Type'', ''application/json'')],
                  body = Some (SubmitBody (backendAnswers (userAnswers (test (st ! i)))))\<rparr>]
            | Timeout \<Rightarrow>
                [\<lparr>http_method = ''POST'',
                  url = ''https://profiler-backend-5plw.onrender.com/submit-test'',
                  headers = [(''Content-Type'', ''application/json'')],
                  body = Some (SubmitBody (backendAnswers (userAnswers (test (st ! i)))))\<rparr>]
            | _ \<Rightarrow> [])
       \<and> (\<forall>rq \<in> set (snd (tr ! i)).
            (http_method rq, url rq) \<in>
              {(''POST'', ''https://profiler-backend-5plw.onrender.com/start-test''),
               (''POST'', ''https://profiler-backend-5plw.onrender.com/submit-test'')})"
proof -
  obtain s' rqs where p: "tr ! i = (s', rqs)" by (cases "tr ! i")
  have stp: "step (st ! i) (es ! i) = Some (s', rqs)"
    using run_step [OF assms(1,3)] p by (simp add: assms(2))
  have startup: "snd mount_App =
           [\<lparr>http_method = ''GET'',
             url = ''https://profiler-backend-5plw.onrender.com/categories'',
             headers = [], body = None\<rparr>]"
    by (simp add: mount_App_def fetchCategories_call_def API_BASE_URL_def)
  have sent: "snd (tr ! i) =
           (case es ! i of
              ClickStart \<Rightarrow>
                [\<lparr>http_method = ''POST'',
                  url = ''https://profiler-backend-5plw.onrender.com/start-test'',
                  headers = [(''Content-Type'', ''application/json'')],
                  body = Some (StartBody
                    (map c_id (filter (\<lambda>cat. c_id cat \<in> selected (st ! i))
                                 (allCategories (app (st ! i))))))\<rparr>]
            | ClickSubmit \<Rightarrow>
                [\<lparr>http_method = ''POST'',
                  url = ''https://profiler-backend-5plw.onrender.com/submit-test'',
                  headers = [(''Content-Type'', ''application/json'')],
                  body = Some (SubmitBody (backendAnswers (userAnswers (test (st ! i)))))\<rparr>]
            | Timeout \<Rightarrow>
                [\<lparr>http_method = ''POST'',
                  url = ''https://profiler-backend-5plw.onrender.com/submit-test'',
                  headers = [(''Content-Type'', ''application/json'')],
                  body = Some (SubmitBody (backendAnswers (userAnswers (test (st ! i)))))\<rparr>]
            | _ \<Rightarrow> [])"
    unfolding p step_requests [OF stp]
    by (simp add: handleStartTest_call_def handleSubmitTest_call_def handleStart_def
          API_BASE_URL_def split: event.splits)
  have paths: "\<forall>rq \<in> set (snd (tr ! i)).
            (http_method rq, url rq) \<in>
              {(''POST'', ''https://profiler-backend-5plw.onrender.com/start-test''),
               (''POST'', ''https://profiler-backend-5plw.onrender.com/submit-test'')}"
    unfolding sent by (simp split: event.splits)
  from startup sent paths show ?thesis by (intro conjI)
qed


theorem three_endpoints_witness:
  "\<exists>tr. run (fst mount_App) example_events = Some tr
     \<and> (2::nat) < length example_events \<and> example_events ! 2 = ClickStart
     \<and> snd mount_App @ concat (map snd tr) =
           [\<lparr>http_method = ''GET'',
             url = ''https://profiler-backend-5plw.onrender.com/categories'',
             headers = [], body = None\<rparr>,
            \<lparr>http_method = ''POST'',
              url = ''https://profiler-backend-5plw.onrender.com/start-test'',
              headers = [(''Content-Type'', ''application/json'')],
              body = Some (StartBody [''memory''])\<rparr>,
            \<lparr>http_method = ''POST'',
              url = ''https://profiler-backend-5plw.onrender.com/submit-test'',
              headers = [(''Content-Type'', ''application/json'')],
              body = Some (SubmitBody [\<lparr>questionId = Some 7, selectedOption = 2\<rparr>])\<rparr>]"
proof -
  from example_run_facts obtain tr where
    f: "run (fst mount_App) example_events = Some tr
     \<and> map (screen \<circ> app) (states (fst mount_App) tr)
         = [Selection, Selection, Selection, Loading, Test, Test, Test, Loading, Results, Selection]
     \<and> map (userAnswers \<circ> test) (states (fst mount_App) tr)
         = [[], [], [], [], [], [(''7'', 2)], [(''7'', 2)], [(''7'', 2)], [(''7'', 2)], [(''7'', 2)]]
     \<and> map snd tr
         = [[], [],
            [\<lparr>http_method = ''POST'',
              url = ''https://profiler-backend-5plw.onrender.com/start-test'',
              headers = [(''Content-Type'', ''application/json'')],
              body = Some (StartBody [''memory''])\<rparr>],
            [], [], [],
            [\<lparr>http_method = ''POST'',
              url = ''https://profiler-backend-5plw.onrender.com/submit-test'',
              headers = [(''Content-Type'', ''application/json'')],
              body = Some (SubmitBody [\<lparr>questionId = Some 7, selectedOption = 2\<rparr>])\<rparr>],
            [], []]" ..
  from f have tr: "run (fst mount_App) example_events = Some tr"
    and rq: "map snd tr
         = [[], [],
            [\<lparr>http_method = ''POST'',
              url = ''https://profiler-backend-5plw.onrender.com/start-test'',
              headers = [(''Content-Type'', ''application/json'')],
              body = Some (StartBody [''memory''])\<rparr>],
            [], [], [],
            [\<lparr>http_method = ''POST'',
              url = ''https://profiler-backend-5plw.onrender.com/submit-test'',
              headers = [(''Content-Type'', ''application/json'')],
              body = Some (SubmitBody [\<lparr>questionId = Some 7, selectedOption = 2\<rparr>])\<rparr>],
            [], []]"
    by (rule conjunct1, rule conjunct2 [THEN conjunct2, THEN conjunct2])
  have ev: "example_events ! 2 = ClickStart" and len: "2 < length example_events"
    by (simp_all add: example_events_def)
  note three_endpoints [OF tr refl len, THEN conjunct1]
  then have "snd mount_App @ concat (map snd tr) =
           [\<lparr>http_method = ''GET'',
             url = ''https://profiler-backend-5plw.onrender.com/categories'',
             headers = [], body = None\<rparr>,
            \<lparr>http_method = ''POST'',
              url = ''https://profiler-backend-5plw.onrender.com/start-test'',
              headers = [(''Content-Type'', ''application/json'')],
              body = Some (StartBody [''memory''])\<rparr>,
            \<lparr>http_method = ''POST'',
              url = ''https://profiler-backend-5plw.onrender.com/submit-test'',
              headers = [(''Content-Type'', ''application/json'')],
              body = Some (SubmitBody [\<lparr>questionId = Some 7, selectedOption = 2\<rparr>])\<rparr>]"
    unfolding rq by simp
  with tr len ev show ?thesis
    by (intro exI [of _ tr] conjI) assumption+
qed

subsection \<open>Submission on timeout\<close>

text \<open>
  C5: the test is timed, and the answers are submitted when the time is up. With questions
  in the list, the timeout hook passes the recorded answers to \<^verbatim>\<open>onSubmit\<close> exactly when
  \<open>timeLeft\<close> is 0; with an empty list it never does. On the page: the tick that takes the
  countdown from 1 to 0 leaves the answers as they are, and in a rendered test screen with
  \<open>timeLeft = 0\<close> the next thing to happen on that screen is the hook, which sends the
  recorded answers to \<^verbatim>\<open>/submit-test\<close> and shows the loading screen; with no questions
  nothing is submitted.
\<close>

theorem timeout_submits_answers:
  "(qs \<noteq> [] \<and> timeLeft ts = 0 \<longrightarrow> timeout_hook qs ts = Some (userAnswers ts))
     \<and> timeout_hook [] ts = None
     \<and> (timeLeft ts \<noteq> 0 \<longrightarrow> timeout_hook qs ts = None)
     \<and> (step s Tick = Some (s1, rqs) \<and> timeLeft (test s) = 1 \<longrightarrow>
          rqs = [] \<and> timeLeft (test s1) = 0 \<and> userAnswers (test s1) = userAnswers (test s)
        \<and> test_rendered s1 \<and> app s1 = app s)
     \<and> (test_rendered s \<and> timeLeft (test s) = 0 \<longrightarrow>
          quizQuestions (app s) \<noteq> []
        \<and> step s Timeout =
            Some (s\<lparr>app := (app s)\<lparr>screen := Loading, error := None\<rparr>, awaiting := SubmitCall\<rparr>,
                  [\<lparr>http_method = ''POST'',
                    url = ''https://profiler-backend-5plw.onrender.com/submit-test'',
                    headers = [(''Content-Type'', ''application/json'')],
                    body = Some (SubmitBody (backendAnswers (userAnswers (test s))))\<rparr>])
        \<and> step s Tick = None \<and> step s ClickNext = None \<and> step s ClickPrev = None
        \<and> step s ClickSubmit = None \<and> (\<forall>a. step s (ClickOption a) = None))
     \<and> (quizQuestions (app s) = [] \<longrightarrow> step s Timeout = None \<and> step s Tick = None)"
proof -
  have hook: "(qs \<noteq> [] \<and> timeLeft ts = 0 \<longrightarrow> timeout_hook qs ts = Some (userAnswers ts))
     \<and> timeout_hook [] ts = None
     \<and> (timeLeft ts \<noteq> 0 \<longrightarrow> timeout_hook qs ts = None)"
    by (simp add: timeout_hook_def)
  have reach: "rqs = [] \<and> timeLeft (test s1) = 0 \<and> userAnswers (test s1) = userAnswers (test s)
        \<and> test_rendered s1 \<and> app s1 = app s"
    if "step s Tick = Some (s1, rqs) \<and> timeLeft (test s) = 1"
    using that
    by (auto simp: step_def test_live_def test_rendered_def tick_def option_buttons_def
          split: if_splits)
  have nonempty: "quizQuestions (app s) \<noteq> []" if "test_rendered s"
    using that
    by (auto simp: test_rendered_def option_buttons_def question_at_def split: if_splits)
  have fire: "step s Timeout =
            Some (s\<lparr>app := (app s)\<lparr>screen := Loading, error := None\<rparr>, awaiting := SubmitCall\<rparr>,
                  [\<lparr>http_method = ''POST'',
                    url = ''https://profiler-backend-5plw.onrender.com/submit-test'',
                    headers = [(''Content-Type'', ''application/json'')],
                    body = Some (SubmitBody (backendAnswers (userAnswers (test s))))\<rparr>])
        \<and> step s Tick = None \<and> step s ClickNext = None \<and> step s ClickPrev = None
        \<and> step s ClickSubmit = None \<and> (\<forall>a. step s (ClickOption a) = None)"
    if "test_rendered s \<and> timeLeft (test s) = 0"
    using that nonempty
    by (simp add: step_def test_live_def timeout_hook_def submit_def handleSubmitTest_call_def
          API_BASE_URL_def)
  have empty: "step s Timeout = None \<and> step s Tick = None" if "quizQuestions (app s) = []"
    using that
    by (auto simp: step_def test_live_def test_rendered_def option_buttons_def question_at_def)
  from hook reach nonempty fire empty show ?thesis by blast
qed

theorem timeout_submits_answers_witness:
  "step example_test_sys Tick
     = Some (example_test_sys\<lparr>test := (test example_test_sys)\<lparr>timeLeft := 0, timerActive := False\<rparr>\<rparr>, [])
   \<and> timeLeft (test example_test_sys) = 1
   \<and> step (example_test_sys\<lparr>test := (test example_test_sys)\<lparr>timeLeft := 0, timerActive := False\<rparr>\<rparr>) Timeout
     = Some (example_test_sys
               \<lparr>test := (test example_test_sys)\<lparr>timeLeft := 0, timerActive := False\<rparr>,
                app := (app example_test_sys)\<lparr>screen := Loading, error := None\<rparr>,
                awaiting := SubmitCall\<rparr>,
             [\<lparr>http_method = ''POST'',
               url = ''https://profiler-backend-5plw.onrender.com/submit-test'',
               headers = [(''Content-Type'', ''application/json'')],
               body = Some (SubmitBody [\<lparr>questionId = Some 7, selectedOption = 2\<rparr>])\<rparr>])
   \<and> quizQuestions (app (example_test_sys\<lparr>app := (app example_test_sys)\<lparr>quizQuestions := []\<rparr>\<rparr>)) = []
   \<and> step (example_test_sys\<lparr>app := (app example_test_sys)\<lparr>quizQuestions := []\<rparr>\<rparr>) Timeout = None
   \<and> timeout_hook [] ((test example_test_sys)\<lparr>timeLeft := 0\<rparr>) = None"
  using timeout_submits_answers
          [of "[example_question]" "(test example_test_sys)\<lparr>timeLeft := 0\<rparr>"
              example_test_sys
              "example_test_sys\<lparr>test := (test example_test_sys)\<lparr>timeLeft := 0, timerActive := False\<rparr>\<rparr>"
              "[]"]
        timeout_submits_answers
          [of "[]" "(test example_test_sys)\<lparr>timeLeft := 0\<rparr>"
              "example_test_sys\<lparr>app := (app example_test_sys)\<lparr>quizQuestions := []\<rparr>\<rparr>"]
  by (simp add: example_test_sys_def example_question_def step_def test_live_def
        test_rendered_def option_buttons_def question_at_def timeout_hook_def tick_def
        submit_def handleSubmitTest_call_def API_BASE_URL_def backendAnswers_def parseInt_def
        is_digit_def digits_val_def digit_val_def)

subsection \<open>The end of a submission\<close>

lemma step_no_results_yet:
  assumes "step s e = Some (s', rqs)"
    and "(awaiting s \<noteq> NoCall \<longrightarrow> screen (app s) = Loading)
       \<and> (screen (app s) = Test \<or> awaiting s = SubmitCall
            \<longrightarrow> testResults (app s) = None \<and> analysis (app s) = None)"
  shows "(awaiting s' \<noteq> NoCall \<longrightarrow> screen (app s') = Loading)
       \<and> (screen (app s') = Test \<or> awaiting s' = SubmitCall
            \<longrightarrow> testResults (app s') = None \<and> analysis (app s') = None)"
proof -
  have a: "awaiting s' \<noteq> NoCall \<longrightarrow> screen (app s') = Loading"
    using step_awaiting_loading [OF assms(1)] assms(2) by blast
  have b: "screen (app s') = Test \<or> awaiting s' = SubmitCall
            \<longrightarrow> testResults (app s') = None \<and> analysis (app s') = None"
    using assms
    by (cases e)
       (auto simp: step_defs split: if_splits option.splits fetch_result.splits Screen.splits)
  from a b show ?thesis ..
qed

lemma run_no_results_yet:
  assumes "run (fst mount_App) es = Some tr" and "i \<le> length es"
  shows "(awaiting (states (fst mount_App) tr ! i) \<noteq> NoCall
            \<longrightarrow> screen (app (states (fst mount_App) tr ! i)) = Loading)
       \<and> (screen (app (states (fst mount_App) tr ! i)) = Test
            \<or> awaiting (states (fst mount_App) tr ! i) = SubmitCall
            \<longrightarrow> testResults (app (states (fst mount_App) tr ! i)) = None
              \<and> analysis (app (states (fst mount_App) tr ! i)) = None)"
proof (rule run_invariant [OF assms(1) _ _ assms(2)])
  show "(awaiting (fst mount_App) \<noteq> NoCall \<longrightarrow> screen (app (fst mount_App)) = Loading)
       \<and> (screen (app (fst mount_App)) = Test \<or> awaiting (fst mount_App) = SubmitCall
            \<longrightarrow> testResults (app (fst mount_App)) = None \<and> analysis (app (fst mount_App)) = None)"
    by (simp add: mount_App_def initial_App_def)
qed (rule step_no_results_yet)

lemma step_SubmitSettled:
  assumes "step s (SubmitSettled r) = Some (s', rqs)"
  shows "awaiting s = SubmitCall
       \<and> s' = s\<lparr>app := handleSubmitTest_settle (app s) r, awaiting := NoCall\<rparr> \<and> rqs = []"
  using assms by (auto simp: step_def split: if_splits)

text \<open>
  C8: a call of \<open>handleSubmitTest\<close> ends on the results screen whatever the outcome of
  its request. When the request fails (the response is not ok, or something is thrown),
  the call changes nothing but the screen and the error message: \<open>testResults\<close> and
  \<open>analysis\<close> are what they were. On the page they are null then: in every run of the
  client, the state after a failed submission has the screen \<open>Results\<close>, no results, no
  analysis, and an error message.
\<close>

theorem handleSubmitTest_ends_on_results:
  "screen (handleSubmitTest app0 answers r) = Results
     \<and> handleSubmitTest app0 answers (NotOk detail)
         = app0\<lparr>error := Some (or_else detail ''Failed to submit test''), screen := Results\<rparr>
     \<and> handleSubmitTest app0 answers (ThrewError m) = app0\<lparr>error := Some m, screen := Results\<rparr>
     \<and> handleSubmitTest app0 answers ThrewOther
         = app0\<lparr>error := Some ''An unknown error occurred while fetching your analysis.'',
                screen := Results\<rparr>
     \<and> ((\<forall>d. r \<noteq> Fetched d) \<longrightarrow>
            testResults (handleSubmitTest app0 answers r) = testResults app0
          \<and> analysis (handleSubmitTest app0 answers r) = analysis app0
          \<and> error (handleSubmitTest app0 answers r) \<noteq> None)
     \<and> (run (fst mount_App) es = Some tr \<and> i < length es \<and> es ! i = SubmitSettled r
          \<and> (\<forall>d. r \<noteq> Fetched d) \<longrightarrow>
            screen (app (states (fst mount_App) tr ! Suc i)) = Results
          \<and> testResults (app (states (fst mount_App) tr ! Suc i)) = None
          \<and> analysis (app (states (fst mount_App) tr ! Suc i)) = None
          \<and> error (app (states (fst mount_App) tr ! Suc i)) \<noteq> None)"
proof -
  have always: "screen (handleSubmitTest app0 answers r) = Results"
    by (cases r) (simp_all add: handleSubmitTest_def handleSubmitTest_call_def handleSubmitTest_settle_def)
  have failures: "handleSubmitTest app0 answers (NotOk detail)
         = app0\<lparr>error := Some (or_else detail ''Failed to submit test''), screen := Results\<rparr>"
    "handleSubmitTest app0 answers (ThrewError m) = app0\<lparr>error := Some m, screen := Results\<rparr>"
    "handleSubmitTest app0 answers ThrewOther
         = app0\<lparr>error := Some ''An unknown error occurred while fetching your analysis.'',
                screen := Results\<rparr>"
    by (simp_all add: handleSubmitTest_def handleSubmitTest_call_def handleSubmitTest_settle_def)
  have kept: "testResults (handleSubmitTest app0 answers r) = testResults app0
          \<and> analysis (handleSubmitTest app0 answers r) = analysis app0
          \<and> error (handleSubmitTest app0 answers r) \<noteq> None"
    if "\<forall>d. r \<noteq> Fetched d"
    using that
    by (cases r) (simp_all add: handleSubmitTest_def handleSubmitTest_call_def handleSubmitTest_settle_def)
  have page: "screen (app (states (fst mount_App) tr ! Suc i)) = Results
          \<and> testResults (app (states (fst mount_App) tr ! Suc i)) = None
          \<and> analysis (app (states (fst mount_App) tr ! Suc i)) = None
          \<and> error (app (states (fst mount_App) tr ! Suc i)) \<noteq> None"
    if h: "run (fst mount_App) es = Some tr \<and> i < length es \<and> es ! i = SubmitSettled r
          \<and> (\<forall>d. r \<noteq> Fetched d)"
  proof -
    from h have rn: "run (fst mount_App) es = Some tr" and i: "i < length es"
      and e: "es ! i = SubmitSettled r" and fail: "\<forall>d. r \<noteq> Fetched d"
      by blast+
    define s where "s = states (fst mount_App) tr ! i"
    obtain s' rqs where p: "tr ! i = (s', rqs)" by (cases "tr ! i")
    have stp: "step s (SubmitSettled r) = Some (s', rqs)"
      using run_step [OF rn i] p e by (simp add: s_def)
    have nxt: "states (fst mount_App) tr ! Suc i = s'"
      using states_Suc [of i tr "fst mount_App"] i run_length [OF rn] p by simp
    from step_SubmitSettled [OF stp]
    have aw: "awaiting s = SubmitCall"
      and s': "s' = s\<lparr>app := handleSubmitTest_settle (app s) r, awaiting := NoCall\<rparr>"
      by blast+
    from run_no_results_yet [OF rn, of i] i aw
    have none: "testResults (app s) = None" "analysis (app s) = None"
      by (simp_all add: s_def)
    from fail none show ?thesis
      unfolding nxt s' by (cases r) (simp_all add: handleSubmitTest_settle_def)
  qed
  from always failures kept page show ?thesis by blast
qed

lemma example_failed_run_facts:
  "\<exists>tr. run (fst mount_App) example_failed_events = Some tr
     \<and> map (\<lambda>s. (screen (app s), testResults (app s), analysis (app s), error (app s)))
         (drop 7 (states (fst mount_App) tr))
         = [(Loading, None, None, None), (Results, None, None, Some ''Failed to submit test'')]"
proof -
  have "map_option
          (\<lambda>tr. map (\<lambda>s. (screen (app s), testResults (app s), analysis (app s), error (app s)))
             (drop 7 (states (fst mount_App) tr)))
          (run (fst mount_App) example_failed_events)
        = Some [(Loading, None, None, None), (Results, None, None, Some ''Failed to submit test'')]"
    by (simp add: step_defs eval_defs example_failed_events_def or_else_def)
  then show ?thesis
    by (cases "run (fst mount_App) example_failed_events") simp_all
qed

theorem handleSubmitTest_ends_on_results_witness:
  "\<exists>tr. run (fst mount_App) example_failed_events = Some tr
     \<and> (7::nat) < length example_failed_events
     \<and> example_failed_events ! 7 = SubmitSettled (NotOk None)
     \<and> (\<forall>d. (NotOk None :: SubmitResponse fetch_result) \<noteq> Fetched d)
     \<and> screen (app (states (fst mount_App) tr ! Suc 7)) = Results
     \<and> testResults (app (states (fst mount_App) tr ! Suc 7)) = None
     \<and> analysis (app (states (fst mount_App) tr ! Suc 7)) = None
     \<and> error (app (states (fst mount_App) tr ! Suc 7)) \<noteq> None
     \<and> handleSubmitTest initial_App [] (NotOk None)
         = initial_App\<lparr>error := Some ''Failed to submit test'', screen := Results\<rparr>"
proof -
  from example_failed_run_facts obtain tr where
    f: "run (fst mount_App) example_failed_events = Some tr
     \<and> map (\<lambda>s. (screen (app s), testResults (app s), analysis (app s), error (app s)))
         (drop 7 (states (fst mount_App) tr))
         = [(Loading, None, None, None), (Results, None, None, Some ''Failed to submit test'')]" ..
  then have tr: "run (fst mount_App) example_failed_events = Some tr" ..
  have ev: "example_failed_events ! 7 = SubmitSettled (NotOk None)"
    and len: "7 < length example_failed_events"
    by (simp_all add: example_failed_events_def)
  have fail: "\<forall>d. (NotOk None :: SubmitResponse fetch_result) \<noteq> Fetched d"
    by simp
  note t = handleSubmitTest_ends_on_results
             [of initial_App "[]" "NotOk None" None "[]" example_failed_events tr 7]
  from t have page:
    "run (fst mount_App) example_failed_events = Some tr \<and> 7 < length example_failed_events
       \<and> example_failed_events ! 7 = SubmitSettled (NotOk None)
       \<and> (\<forall>d. (NotOk None :: SubmitResponse fetch_result) \<noteq> Fetched d) \<longrightarrow>
            screen (app (states (fst mount_App) tr ! Suc 7)) = Results
          \<and> testResults (app (states (fst mount_App) tr ! Suc 7)) = None
          \<and> analysis (app (states (fst mount_App) tr ! Suc 7)) = None
          \<and> error (app (states (fst mount_App) tr ! Suc 7)) \<noteq> None"
    by (elim conjE)
  from page [rule_format, OF conjI, OF tr conjI, OF len conjI, OF ev fail]
  have shown: "screen (app (states (fst mount_App) tr ! Suc 7)) = Results
          \<and> testResults (app (states (fst mount_App) tr ! Suc 7)) = None
          \<and> analysis (app (states (fst mount_App) tr ! Suc 7)) = None
          \<and> error (app (states (fst mount_App) tr ! Suc 7)) \<noteq> None" .
  from t have "handleSubmitTest initial_App [] (NotOk None)
         = initial_App\<lparr>error := Some (or_else None ''Failed to submit test''), screen := Results\<rparr>"
    by (elim conjE)
  then have handler: "handleSubmitTest initial_App [] (NotOk None)
         = initial_App\<lparr>error := Some ''Failed to submit test'', screen := Results\<rparr>"
    by (simp add: or_else_def)
  from shown tr len ev fail handler show ?thesis
    by (intro exI [of _ tr] conjI) (elim conjE, assumption)+
qed

subsection \<open>The scores\<close>

lemma sum_tally_add:
  "sum_list (map (\<lambda>(c, cr). correct cr) (tally_add c ok acc))
     = sum_list (map (\<lambda>(c, cr). correct cr) acc) + score ok
   \<and> sum_list (map (\<lambda>(c, cr). cr_total cr) (tally_add c ok acc))
     = sum_list (map (\<lambda>(c, cr). cr_total cr) acc) + 1"
  by (induction acc) auto

lemma sum_tally_fold:
  "sum_list (map (\<lambda>(c, cr). correct cr) (foldl (\<lambda>acc (c, ok). tally_add c ok acc) acc graded))
     = sum_list (map (\<lambda>(c, cr). correct cr) acc) + int (length (filter snd graded))
   \<and> sum_list (map (\<lambda>(c, cr). cr_total cr) (foldl (\<lambda>acc (c, ok). tally_add c ok acc) acc graded))
     = sum_list (map (\<lambda>(c, cr). cr_total cr) acc) + int (length graded)"
proof (induction graded arbitrary: acc)
  case Nil
  show ?case by simp
next
  case (Cons g graded)
  obtain c ok where g: "g = (c, ok)" by (cases g)
  from Cons.IH [of "tally_add c ok acc"] sum_tally_add [of c ok acc]
  show ?case by (simp add: g score_def)
qed

text \<open>
  The client neither computes nor checks the scores: after a successful submission the
  results screen shows the results of the response as they came.
\<close>

lemma shown_results_are_the_response:
  "renderScreen (handleSubmitTest app0 answers (Fetched d))
     = ResultsScreen (results d) (Some (sr_analysis d)) None"
  by (simp add: renderScreen_def handleSubmitTest_def handleSubmitTest_call_def
        handleSubmitTest_settle_def)

lemma sums_grade:
  "sum_correct (grade answer_key answers) = totalCorrect (grade answer_key answers)
   \<and> sum_total (grade answer_key answers) = totalQuestions (grade answer_key answers)"
  using sum_tally_fold [of "[]" "compare_answers answer_key answers"]
  by (simp add: sum_correct_def sum_total_def grade_def tally_def Let_def)

text \<open>
  C3: the results on the results screen add up. The results that the backend's grading
  gives for the submitted answers are shown as they are, and in them the \<open>correct\<close>
  fields of the entries of \<open>categoryResults\<close> sum to \<open>totalCorrect\<close>, and the \<open>total\<close>
  fields sum to \<open>totalQuestions\<close>.
\<close>

theorem shown_results_add_up:
  "renderScreen (handleSubmitTest app0 answers
       (Fetched \<lparr>results = grade answer_key (backendAnswers answers), sr_analysis = a\<rparr>))
     = ResultsScreen (grade answer_key (backendAnswers answers)) (Some a) None
   \<and> sum_correct (grade answer_key (backendAnswers answers))
       = totalCorrect (grade answer_key (backendAnswers answers))
   \<and> sum_total (grade answer_key (backendAnswers answers))
       = totalQuestions (grade answer_key (backendAnswers answers))"
proof -
  have "renderScreen (handleSubmitTest app0 answers
       (Fetched \<lparr>results = grade answer_key (backendAnswers answers), sr_analysis = a\<rparr>))
     = ResultsScreen (grade answer_key (backendAnswers answers)) (Some a) None"
    by (simp add: renderScreen_def handleSubmitTest_def handleSubmitTest_call_def
          handleSubmitTest_settle_def)
  with sums_grade [of answer_key "backendAnswers answers"] show ?thesis by simp
qed

theorem shown_results_add_up_witness:
  "grade example_key (backendAnswers [(''7'', 2)]) = results example_response
   \<and> sum_correct (results example_response) = 1 \<and> totalCorrect (results example_response) = 1
   \<and> sum_total (results example_response) = 1 \<and> totalQuestions (results example_response) = 1"
proof -
  have g: "grade example_key (backendAnswers [(''7'', 2)]) = results example_response"
    by (simp add: example_key_def example_response_def grade_def compare_answers_def
          backendAnswers_def parseInt_def is_digit_def digits_val_def digit_val_def tally_def
          score_def)
  have one: "totalCorrect (results example_response) = 1"
    "totalQuestions (results example_response) = 1"
    by (simp_all add: example_response_def)
  from shown_results_add_up
         [of initial_App "[(''7'', 2)]" example_key "sr_analysis example_response"]
  have "sum_correct (results example_response) = totalCorrect (results example_response)
      \<and> sum_total (results example_response) = totalQuestions (results example_response)"
    unfolding g by (elim conjE) (rule conjI)
  with g one show ?thesis by simp
qed

end
